theory Spec2Isabelle
  imports
    Complex_Main
    "HOL-Library.Sublist"
    "HOL-Library.Char_ord"
    "HOL-Library.List_Lexorder"
    "HOL-Library.AList"
begin

section \<open>Python values used by the helper functions of scalar.py\<close>

subsection \<open>Strings\<close>

text \<open>
  A Python \<open>str\<close> is modelled as a \<open>string\<close>, the list of the bytes of its UTF-8
  encoding. Every keyword, label and selector of the program that takes part in a
  comparison is ASCII. \<open>py_lower\<close> lowers the ASCII letters and leaves every byte from
  \<open>0x80\<close> on alone: the Unicode case table beyond ASCII is not part of the model.
  \<open>py_isspace\<close> is the test for an ASCII whitespace character. \<open>strip\<close> and \<open>split\<close>
  know every whitespace character of Unicode, each by its UTF-8 bytes (\<open>ws_len\<close>).
  A character of a source literal beyond ASCII is written as its UTF-8 bytes.
\<close>

definition bullet :: string where
  \<comment> \<open>U+2022\<close>
  "bullet = [CHR 0xE2, CHR 0x80, CHR 0xA2]"

definition em_dash :: string where
  \<comment> \<open>U+2014\<close>
  "em_dash = [CHR 0xE2, CHR 0x80, CHR 0x94]"

definition py_isspace :: "char \<Rightarrow> bool" where
  \<comment> \<open>\<open>str.isspace\<close> on ASCII: code points 9 to 13, 28 to 31 and 32.\<close>
  "py_isspace c =
     (let n = (of_char c :: nat) in (9 \<le> n \<and> n \<le> 13) \<or> (28 \<le> n \<and> n \<le> 32))"

definition ws2 :: "char \<Rightarrow> char \<Rightarrow> bool" where
  \<comment> \<open>the whitespace characters of two bytes: U+0085 and U+00A0\<close>
  "ws2 a b = (a = CHR 0xC2 \<and> (b = CHR 0x85 \<or> b = CHR 0xA0))"

definition ws3_tail :: "char \<Rightarrow> bool" where
  \<comment> \<open>the last byte of U+2000 to U+200A, U+2028, U+2029 and U+202F\<close>
  "ws3_tail c =
     (let n = (of_char c :: nat)
      in (0x80 \<le> n \<and> n \<le> 0x8A) \<or> n = 0xA8 \<or> n = 0xA9 \<or> n = 0xAF)"

definition ws3 :: "char \<Rightarrow> char \<Rightarrow> char \<Rightarrow> bool" where
  \<comment> \<open>the whitespace characters of three bytes: U+1680, U+2000 to U+200A, U+2028,
      U+2029, U+202F, U+205F and U+3000\<close>
  "ws3 a b c =
     ((a = CHR 0xE1 \<and> b = CHR 0x9A \<and> c = CHR 0x80) \<or>
      (a = CHR 0xE2 \<and> b = CHR 0x80 \<and> ws3_tail c) \<or>
      (a = CHR 0xE2 \<and> b = CHR 0x81 \<and> c = CHR 0x9F) \<or>
      (a = CHR 0xE3 \<and> b = CHR 0x80 \<and> c = CHR 0x80))"

fun ws_len :: "string \<Rightarrow> nat" where
  \<comment> \<open>the number of bytes of the whitespace character the string starts with, 0 when it
      starts with none; these are the characters \<open>strip\<close> and \<open>split\<close> treat as
      whitespace\<close>
  "ws_len [] = 0"
| "ws_len (a # s) =
     (if py_isspace a then 1
      else case s of
        [] \<Rightarrow> 0
      | b # s' \<Rightarrow>
          (if ws2 a b then 2
           else (case s' of [] \<Rightarrow> 0 | c # _ \<Rightarrow> if ws3 a b c then 3 else 0)))"

definition lower_char :: "char \<Rightarrow> char" where
  "lower_char c =
     (let n = (of_char c :: nat) in if 65 \<le> n \<and> n \<le> 90 then char_of (n + 32) else c)"

definition py_lower :: "string \<Rightarrow> string" where
  \<comment> \<open>\<open>s.lower()\<close>\<close>
  "py_lower s = map lower_char s"

function all_space :: "string \<Rightarrow> bool" where
  \<comment> \<open>the string consists of whitespace characters only\<close>
  "all_space [] = True"
| "all_space (c # cs) =
     (if ws_len (c # cs) = 0 then False else all_space (drop (ws_len (c # cs)) (c # cs)))"
  by pat_completeness auto
termination
  by (relation "measure length") auto

function lstrip :: "string \<Rightarrow> string" where
  "lstrip [] = []"
| "lstrip (c # cs) =
     (if ws_len (c # cs) = 0 then c # cs else lstrip (drop (ws_len (c # cs)) (c # cs)))"
  by pat_completeness auto
termination
  by (relation "measure length") auto

fun rstrip :: "string \<Rightarrow> string" where
  "rstrip [] = []"
| "rstrip (c # cs) = (if all_space (c # cs) then [] else c # rstrip cs)"

definition py_strip :: "string \<Rightarrow> string" where
  \<comment> \<open>\<open>s.strip()\<close>: whitespace removed at both ends.\<close>
  "py_strip s = rstrip (lstrip s)"

function split_from :: "string \<Rightarrow> string \<Rightarrow> string list" where
  \<comment> \<open>the scan of \<open>s.split()\<close>; the first argument is the word being read\<close>
  "split_from cur [] = (if cur = [] then [] else [cur])"
| "split_from cur (c # cs) =
     (if ws_len (c # cs) = 0 then split_from (cur @ [c]) cs
      else if cur = [] then split_from [] (drop (ws_len (c # cs)) (c # cs))
      else cur # split_from [] (drop (ws_len (c # cs)) (c # cs)))"
  by pat_completeness auto
termination
  by (relation "measure (\<lambda>(cur, s). length s)") auto

definition py_split :: "string \<Rightarrow> string list" where
  \<comment> \<open>\<open>s.split()\<close>: the maximal runs of characters that are not whitespace.\<close>
  "py_split s = split_from [] s"

fun py_in :: "string \<Rightarrow> string \<Rightarrow> bool" where
  \<comment> \<open>\<open>kw in text\<close> on strings: \<open>kw\<close> occurs as a substring of \<open>text\<close>.\<close>
  "py_in kw [] = (kw = [])"
| "py_in kw (c # cs) = (prefix kw (c # cs) \<or> py_in kw cs)"

fun py_join :: "string \<Rightarrow> string list \<Rightarrow> string" where
  \<comment> \<open>\<open>sep.join(xs)\<close>\<close>
  "py_join sep [] = []"
| "py_join sep [x] = x"
| "py_join sep (x # y # ys) = x @ sep @ py_join sep (y # ys)"

subsection \<open>Floats\<close>

text \<open>
  A finite Python \<open>float\<close> is modelled by the real number it denotes. An operation on
  floats returns the float nearest to the exact result, a tie going to the even
  significand: \<open>double\<close> is that rounding for the 64-bit format, with 53 significant bits
  and the smallest exponent -1022. Overflow is not modelled: the scorer computes no
  value above 10 but the product of the word count and 0.03, which would need a text of
  more than \<open>2^1000\<close> words to overflow. A literal of the source that is not a binary
  fraction, such as \<open>0.03\<close>, denotes \<open>double 0.03\<close>. \<open>discount_by_score\<close> only compares
  its argument with constants, so there the model also carries the values of a \<open>float\<close>
  that are not numbers.
\<close>

datatype pyfloat = Finite real | PosInf | NegInf | NaN

fun float_ge :: "pyfloat \<Rightarrow> real \<Rightarrow> bool" where
  \<comment> \<open>\<open>x >= c\<close> for a finite constant \<open>c\<close>\<close>
  "float_ge (Finite x) c = (c \<le> x)"
| "float_ge PosInf c = True"
| "float_ge NegInf c = False"
| "float_ge NaN c = False"

fun float_lt :: "pyfloat \<Rightarrow> real \<Rightarrow> bool" where
  \<comment> \<open>\<open>x < c\<close> for a finite constant \<open>c\<close>\<close>
  "float_lt (Finite x) c = (x < c)"
| "float_lt PosInf c = False"
| "float_lt NegInf c = True"
| "float_lt NaN c = False"

definition round_half_even :: "real \<Rightarrow> int" where
  \<comment> \<open>the nearest integer, a tie to the even one\<close>
  "round_half_even y =
     (let f = \<lfloor>y\<rfloor>; d = y - of_int f
      in if d < 1 / 2 then f else if 1 / 2 < d then f + 1 else if even f then f else f + 1)"

definition expo :: "real \<Rightarrow> int" where
  \<comment> \<open>the binary exponent of the float format for a value\<close>
  "expo x = max \<lfloor>log 2 \<bar>x\<bar>\<rfloor> (- 1022)"

definition double :: "real \<Rightarrow> real" where
  \<comment> \<open>the nearest float\<close>
  "double x =
     (if x = 0 then 0
      else of_int (round_half_even (x / 2 powi (expo x - 52))) * 2 powi (expo x - 52))"

definition fadd :: "real \<Rightarrow> real \<Rightarrow> real" where
  \<comment> \<open>\<open>x + y\<close> on floats\<close>
  "fadd x y = double (x + y)"

definition fsub :: "real \<Rightarrow> real \<Rightarrow> real" where
  \<comment> \<open>\<open>x - y\<close> on floats\<close>
  "fsub x y = double (x - y)"

definition fmul :: "real \<Rightarrow> real \<Rightarrow> real" where
  \<comment> \<open>\<open>x * y\<close> on floats\<close>
  "fmul x y = double (x * y)"

definition float_of_nat :: "nat \<Rightarrow> real" where
  \<comment> \<open>the conversion of an \<open>int\<close> that multiplies a float\<close>
  "float_of_nat n = double (real n)"

definition py_round1 :: "real \<Rightarrow> real" where
  \<comment> \<open>\<open>round(x, 1)\<close>: to the nearest multiple of one tenth, a tie to the even one.\<close>
  "py_round1 x =
     (let y = x * 10; f = \<lfloor>y\<rfloor>; d = y - of_int f
      in (if d < 1 / 2 then of_int f
          else if 1 / 2 < d then of_int (f + 1)
          else if even f then of_int f else of_int (f + 1)) / 10)"

definition float_round1 :: "real \<Rightarrow> real" where
  \<comment> \<open>\<open>round(x, 1)\<close> on a float: the float nearest to the decimal that \<open>py_round1\<close>
      gives for the exact value of \<open>x\<close>\<close>
  "float_round1 x = double (py_round1 x)"

definition one_decimal :: "real \<Rightarrow> bool" where
  \<comment> \<open>the value has at most one decimal place\<close>
  "one_decimal x = (x * 10 = of_int \<lfloor>x * 10\<rfloor>)"

definition uniform :: "real \<Rightarrow> real \<Rightarrow> real \<Rightarrow> real" where
  \<comment> \<open>\<open>random.uniform(a, b)\<close>, computed as the library does, \<open>a + (b - a) * r\<close> on
      floats, from the draw \<open>r\<close> of \<open>random.random()\<close>, a number of the unit interval.\<close>
  "uniform a b r = fadd a (fmul (fsub b a) r)"

section \<open>Discount Mapper\<close>

record discount =
  tier :: string
  savings :: string

definition discount_by_score :: "pyfloat \<Rightarrow> discount" where
  "discount_by_score score =
     (if float_ge score 9.0 then
        \<lparr>tier = [CHR 0xF0, CHR 0x9F, CHR 0xA5, CHR 0x87] @ '' 40% OFF'', savings = ''40%''\<rparr>
      else if float_ge score 8.0 then
        \<lparr>tier = [CHR 0xF0, CHR 0x9F, CHR 0xA5, CHR 0x88] @ '' 30% OFF'', savings = ''30%''\<rparr>
      else if float_ge score 7.0 then
        \<lparr>tier = [CHR 0xF0, CHR 0x9F, CHR 0xA5, CHR 0x89] @ '' 20% OFF'', savings = ''20%''\<rparr>
      else
        \<lparr>tier = [CHR 0xF0, CHR 0x9F, CHR 0x8E, CHR 0xAF] @ '' 15% OFF (Participant)'',
         savings = ''15%''\<rparr>)"

section \<open>Solution Scorer\<close>

text \<open>
  \<open>simulate_scoring\<close> draws one random number on either path. The model takes the
  draw \<open>r\<close> of the generator as a second argument, so that the function is
  deterministic and every run of the program is a value of \<open>r\<close> in the unit interval.
  The argument is a \<open>str\<close> that the code first tests with \<open>not\<close>, which also accepts
  \<open>None\<close>. None of the five keywords of the scorer has a letter that a character beyond
  ASCII lowers to in a position where it could complete a match, so the keywords found
  in \<open>py_lower s\<close> are those Python finds in \<open>s.lower()\<close>.
\<close>

definition keyword_boosts :: "(string \<times> real) list" where
  "keyword_boosts =
     [(''feature'', 0.5), (''validation'', double 0.7), (''cross'', double 0.4),
      (''ensemble'', double 0.6), (''hyperparameter'', double 0.6)]"

fun add_boosts :: "string \<Rightarrow> (string \<times> real) list \<Rightarrow> real \<Rightarrow> real" where
  \<comment> \<open>the loop over the keyword boosts, with the running score\<close>
  "add_boosts text [] score = score"
| "add_boosts text ((kw, boost) # rest) score =
     add_boosts text rest (if py_in kw text then fadd score boost else score)"

definition simulate_scoring :: "string option \<Rightarrow> real \<Rightarrow> real" where
  "simulate_scoring solution_text r =
     (case solution_text of
        None \<Rightarrow> uniform 4.0 6.5 r
      | Some s \<Rightarrow>
          if s = [] \<or> py_strip s = [] then uniform 4.0 6.5 r
          else
            let text = py_lower s;
                score = min 10.0
                  (fadd 3.0 (fmul (float_of_nat (length (py_split text))) (double 0.03)));
                score = add_boosts text keyword_boosts score;
                score = fadd score (uniform (- 0.5) (double 0.8) r)
            in float_round1 (max 0.0 (min 10.0 score)))"

section \<open>Profile Extractor\<close>

text \<open>
  A profile is a Python dict. The record has one optional field for each key the
  program ever stores or reads, \<open>None\<close> standing for a key that is absent, which is
  what the \<open>get\<close> calls with a default provide for.
\<close>

record profile =
  role :: "string option"
  experience_years :: "int option"
  skills :: "string list option"
  seniority :: "string option"
  raw_text_preview :: "string option"
  name :: "string option"

datatype py_error = ValueError

definition keywords_dict :: "(string \<times> string list) list" where
  \<comment> \<open>the dict of the source, in insertion order\<close>
  "keywords_dict =
     [(''Software Engineer'',
         [''python'', ''java'', ''react'', ''javascript'', ''backend'', ''frontend'', ''api'',
          ''docker'', ''kubernetes'']),
      (''Data Analyst'',
         [''excel'', ''tableau'', ''power bi'', ''sql'', ''pandas'', ''visualization'',
          ''dashboard'', ''reporting'', ''rfm'', ''eda'']),
      (''Data Scientist'',
         [''machine learning'', ''deep learning'', ''tensorflow'', ''pytorch'',
          ''scikit-learn'', ''ml'', ''ai'', ''pandas'', ''numpy'']),
      (''Product Manager'',
         [''product management'', ''roadmap'', ''stakeholder'', ''user research'', ''kpi'',
          ''metrics'']),
      (''DevOps Engineer'',
         [''aws'', ''azure'', ''ci/cd'', ''terraform'', ''jenkins'', ''infrastructure''])]"

fun scan_kwlist :: "string \<Rightarrow> string list \<Rightarrow> nat \<times> string set \<Rightarrow> nat \<times> string set" where
  \<comment> \<open>the inner loop; the state is \<open>count\<close> and \<open>found_skills\<close>\<close>
  "scan_kwlist text [] (count, found_skills) = (count, found_skills)"
| "scan_kwlist text (kw # kws) (count, found_skills) =
     (if py_in kw text then scan_kwlist text kws (count + 1, insert kw found_skills)
      else scan_kwlist text kws (count, found_skills))"

fun score_roles ::
  "string \<Rightarrow> (string \<times> string list) list \<Rightarrow> (string \<times> nat) list \<times> string set \<Rightarrow>
   (string \<times> nat) list \<times> string set" where
  \<comment> \<open>the outer loop; the state is the dict \<open>scores\<close>, in insertion order, and
      \<open>found_skills\<close>\<close>
  "score_roles text [] (scores, found_skills) = (scores, found_skills)"
| "score_roles text ((r, kwlist) # rest) (scores, found_skills) =
     (case scan_kwlist text kwlist (0, found_skills) of
        (count, found_skills') \<Rightarrow>
          score_roles text rest (AList.update r count scores, found_skills'))"

fun max_from :: "string \<times> nat \<Rightarrow> (string \<times> nat) list \<Rightarrow> string \<times> nat" where
  \<comment> \<open>\<open>max\<close> keeps the item it holds unless a later one is strictly greater\<close>
  "max_from best [] = best"
| "max_from best (x # xs) = max_from (if snd best < snd x then x else best) xs"

definition py_max_by_value :: "(string \<times> nat) list \<Rightarrow> py_error + string \<times> nat" where
  \<comment> \<open>\<open>max(scores, key=scores.get)\<close>, with the value of the key it returns\<close>
  "py_max_by_value scores =
     (case scores of [] \<Rightarrow> Inl ValueError | x # xs \<Rightarrow> Inr (max_from x xs))"

definition extract_profile_from_resume :: "string option \<Rightarrow> py_error + profile option" where
  "extract_profile_from_resume resume_text =
     (case resume_text of
        None \<Rightarrow> Inr None
      | Some rt \<Rightarrow>
          if rt = [] then Inr None
          else
            let text = py_lower rt in
            case score_roles text keywords_dict ([], {}) of
              (scores, found_skills) \<Rightarrow>
                (case py_max_by_value scores of
                   Inl e \<Rightarrow> Inl e
                 | Inr (best, best_score) \<Rightarrow>
                     let best_role = (if best_score = 0 then ''Data Analyst'' else best);
                         exp =
                           (if py_in ''senior'' text \<or> py_in ''5+'' text \<or> py_in ''5 years'' text
                            then 6
                            else if py_in ''lead'' text \<or> py_in ''3+'' text \<or> py_in ''3 years'' text
                            then 4
                            else if py_in ''junior'' text \<or> py_in ''1+'' text \<or> py_in ''1 year'' text
                            then 2
                            else (1 :: int));
                         sen =
                           (if exp \<ge> 5 then ''Senior''
                            else if exp \<ge> 3 then ''Mid-level'' else ''Junior'')
                     in Inr (Some
                          \<lparr>role = Some best_role,
                           experience_years = Some exp,
                           skills = Some (sorted_list_of_set found_skills),
                           seniority = Some sen,
                           raw_text_preview =
                             Some (map (\<lambda>c. if c = CHR 0x0A then CHR '' '' else c) (take 100 rt)
                                   @ (if length rt > 100 then ''...'' else [])),
                           name = None\<rparr>)))"

section \<open>Nugget Generator\<close>

definition empty_dict :: "profile \<Rightarrow> bool" where
  \<comment> \<open>the dict has no key\<close>
  "empty_dict p =
     (role p = None \<and> experience_years p = None \<and> skills p = None \<and> seniority p = None \<and>
      raw_text_preview p = None \<and> name p = None)"

definition get_default :: "'a option \<Rightarrow> 'a \<Rightarrow> 'a" where
  \<comment> \<open>\<open>d.get(key, default)\<close> on the field of the key\<close>
  "get_default field dflt = (case field of None \<Rightarrow> dflt | Some v \<Rightarrow> v)"

definition generate_personalized_nuggets :: "profile option \<Rightarrow> string \<Rightarrow> (string \<rightharpoonup> string)" where
  "generate_personalized_nuggets prof masterclass_topic =
     (case prof of
        None \<Rightarrow> Map.empty
      | Some p \<Rightarrow>
          if empty_dict p then Map.empty
          else
            let r = get_default (role p) ''Professional'';
                sen = get_default (seniority p) ''Junior'';
                sk = take 5 (get_default (skills p) []);
                nuggets =
                  [''headline'' \<mapsto>
                     r @ '' '' @ bullet @ '' '' @ sen @ '' '' @ bullet @ '' '' @
                     (if sk \<noteq> [] then py_join '', '' sk else ''Skills not listed''),
                   ''nugget_1'' \<mapsto>
                     ''As a '' @ r @ '', mastering '' @ masterclass_topic @
                     '' can help you build production-ready analytics & models faster.'',
                   ''nugget_2'' \<mapsto>
                     ''Focus on project-based learning '' @ em_dash @
                     '' employers value delivered impact (dashboards, pipelines, ML features).'',
                   ''cta'' \<mapsto>
                     ''Join the 30-min challenge and earn up to 40% off our AI course '' @
                     em_dash @ '' limited spots!'']
            in if r = ''Data Analyst''
               then nuggets
                 (''nugget_1'' \<mapsto>
                    ''AI helps Data Analysts automate repetitive analysis and build predictive models ''
                    @ em_dash @ '' learn how in the masterclass.'',
                  ''extra_tip'' \<mapsto>
                    ''Try combining SQL + Python + visualization to demonstrate quick wins to stakeholders.'')
               else nuggets)"

section \<open>Email Generator\<close>

record email =
  subject :: string
  content :: string

definition generate_personalized_email :: "profile \<Rightarrow> string \<Rightarrow> string \<Rightarrow> email" where
  "generate_personalized_email p masterclass_topic email_type =
     (let nm = get_default (name p) ''[Name]'';
          r = get_default (role p) ''Professional'';
          sen = get_default (seniority p) []
      in if email_type = ''2 Hours Post-Exit'' then
           \<lparr>subject =
              ''That moment from today'' @ [CHR 0x27] @ ''s '' @ masterclass_topic @ '' '' @
              em_dash @ '' don'' @ [CHR 0x27] @ ''t let it fade'',
            content =
              ''Hi '' @ nm @
              '',\<newline>\<newline>I noticed you attended the '' @ masterclass_topic @
              '' masterclass. As a '' @ sen @ '' '' @ r @
              '', now is the perfect time to convert that learning spark into a measurable skill.\<newline>\<newline>Quick wins for you:\<newline>'' @
              bullet @
              '' Build a dashboard to demonstrate one business metric in 1 week.\<newline>'' @
              bullet @
              '' Use a small ML model to predict the next 30-day trend for a key KPI.\<newline>\<newline>Your exclusive 40% discount is still available for a short time.\<newline>\<newline>[CLAIM 40% OFF]\<newline>\<newline>Best,\<newline>The Scaler AI Team\<newline>''\<rparr>
         else if email_type = ''24 Hours Later'' then
           \<lparr>subject =
              ''Your peers are already advancing '' @ em_dash @ '' a reminder from Scaler AI'',
            content =
              ''Hi '' @ nm @
              '',\<newline>\<newline>Yesterday'' @ [CHR 0x27] @
              ''s masterclass created momentum. Many '' @ py_lower r @
              ''s like you have already started the challenge and secured priority access.\<newline>\<newline>We saved a spot with a discount for '' @
              sen @ '' '' @ r @
              ''s who take action.\<newline>\<newline>[SECURE YOUR SPOT]\<newline>\<newline>'' @
              em_dash @ '' Scaler AI''\<rparr>
         else
           \<lparr>subject = ''A note from your future self '' @ em_dash @ '' keep building'',
            content =
              ''Hi '' @ nm @
              '',\<newline>\<newline>Two weeks from now you'' @ [CHR 0x27] @
              ''ll be glad you acted. As a '' @ r @
              '', this program helps you move from analysis to impact.\<newline>\<newline>[ENROLL NOW '' @
              em_dash @ '' FINAL REMINDER]\<newline>\<newline>'' @ em_dash @
              '' The Scaler Team''\<rparr>)"

section \<open>Keyword counts\<close>

text \<open>
  The number of keywords of a list that occur in a text, which is the value the inner
  loop of the extractor leaves in \<open>count\<close>, and the counts of all roles in the order
  of the dict, which is the content of \<open>scores\<close> after the outer loop
  (\<open>score_roles_keywords\<close> below).
\<close>

definition kw_count :: "string \<Rightarrow> string list \<Rightarrow> nat" where
  "kw_count text kwlist = length (filter (\<lambda>kw. py_in kw text) kwlist)"

definition role_counts :: "string \<Rightarrow> (string \<times> nat) list" where
  "role_counts text = map (\<lambda>(r, kwlist). (r, kw_count text kwlist)) keywords_dict"

section \<open>The scoring rule as the specification words it\<close>

text \<open>
  The specification gives the score of a text that is not blank in steps: a base score
  from the word count, a boost for each of five keywords found in the lower-cased text,
  the noise, the clamp and the rounding. The definitions below follow its words, on
  floats; the scorer above follows the code. The word count is the number of places
  where a word starts: a character that is not whitespace, at the start of the text or
  after whitespace.
\<close>

function word_starts :: "bool \<Rightarrow> string \<Rightarrow> nat" where
  \<comment> \<open>the first argument tells whether the previous character belongs to a word\<close>
  "word_starts inside [] = 0"
| "word_starts inside (c # cs) =
     (if ws_len (c # cs) = 0 then (if inside then 0 else 1) + word_starts True cs
      else word_starts False (drop (ws_len (c # cs)) (c # cs)))"
  by pat_completeness auto
termination
  by (relation "measure (\<lambda>(inside, s). length s)") auto

definition spec_word_count :: "string \<Rightarrow> nat" where
  "spec_word_count s = word_starts False s"

definition spec_boost :: "string \<Rightarrow> string \<Rightarrow> real \<Rightarrow> real \<Rightarrow> real" where
  \<comment> \<open>the boost of one keyword, added when the keyword is in the lower-cased text\<close>
  "spec_boost s kw b score = (if py_in kw (py_lower s) then fadd score b else score)"

definition spec_score :: "string \<Rightarrow> real \<Rightarrow> real" where
  "spec_score s n =
     (let base = min 10.0 (fadd 3.0 (fmul (float_of_nat (spec_word_count s)) (double 0.03)));
          b1 = spec_boost s ''feature'' 0.5 base;
          b2 = spec_boost s ''validation'' (double 0.7) b1;
          b3 = spec_boost s ''cross'' (double 0.4) b2;
          b4 = spec_boost s ''ensemble'' (double 0.6) b3;
          b5 = spec_boost s ''hyperparameter'' (double 0.6) b4
      in float_round1 (max 0.0 (min 10.0 (fadd b5 n))))"

section \<open>Properties of the Discount Mapper\<close>

text \<open>
  C2. The Discount Mapper is a threshold lookup on every float: the 40% tier exactly
  from 9.0 on, the 30% tier exactly on [8.0, 9.0), the 20% tier exactly on [7.0, 8.0),
  and the 15% participant tier for everything else, be it below 7.0, outside
  [0.0, 10.0] or not a number. Infinity gets the 40% tier. In particular 8.9999 maps to
  30% and 7.0 to 20%. The function is total: it has no failing branch.
\<close>

theorem discount_by_score_tiers:
  "(savings (discount_by_score s) = ''40%'' \<longleftrightarrow> float_ge s 9.0) \<and>
   (savings (discount_by_score s) = ''30%'' \<longleftrightarrow> float_ge s 8.0 \<and> float_lt s 9.0) \<and>
   (savings (discount_by_score s) = ''20%'' \<longleftrightarrow> float_ge s 7.0 \<and> float_lt s 8.0) \<and>
   (savings (discount_by_score s) = ''15%'' \<longleftrightarrow> \<not> float_ge s 7.0) \<and>
   savings (discount_by_score s) \<in> {''40%'', ''30%'', ''20%'', ''15%''} \<and>
   savings (discount_by_score (Finite 8.9999)) = ''30%'' \<and>
   savings (discount_by_score (Finite 7.0)) = ''20%'' \<and>
   savings (discount_by_score (Finite (- 3))) = ''15%'' \<and>
   savings (discount_by_score (Finite 12.5)) = ''40%'' \<and>
   savings (discount_by_score NaN) = ''15%''"
  by (cases s) (auto simp: discount_by_score_def)

section \<open>Properties of the string operations\<close>

lemma py_isspace_lower_char: "py_isspace (lower_char c) = py_isspace c"
proof -
  have "of_char (char_of (of_char c + 32 :: nat)) = (of_char c + 32 :: nat)"
    if "(of_char c :: nat) \<le> 90"
    using that by (simp add: of_char_of)
  then show ?thesis
    by (auto simp: py_isspace_def lower_char_def Let_def)
qed

lemma ws_len_le: "ws_len s \<le> length s"
  by (cases s) (auto split: list.splits)

lemma ws_len_ascii: "py_isspace c \<Longrightarrow> ws_len (c # cs) = 1"
  by simp

lemma lower_char_high:
  assumes "128 \<le> (of_char c :: nat)"
  shows "lower_char a = c \<longleftrightarrow> a = c"
proof (cases "65 \<le> (of_char a :: nat) \<and> (of_char a :: nat) \<le> 90")
  case True
  then have "(of_char (lower_char a) :: nat) = of_char a + 32"
    by (simp add: lower_char_def of_char_of)
  with True assms show ?thesis by auto
next
  case False
  then show ?thesis by (auto simp: lower_char_def)
qed

lemma ws2_lower: "ws2 (lower_char a) (lower_char b) = ws2 a b"
  by (simp add: ws2_def lower_char_high)

lemma ws3_tail_lower: "ws3_tail (lower_char c) = ws3_tail c"
proof (cases "65 \<le> (of_char c :: nat) \<and> (of_char c :: nat) \<le> 90")
  case True
  then have "(of_char (lower_char c) :: nat) = of_char c + 32"
    by (simp add: lower_char_def of_char_of)
  with True show ?thesis by (simp add: ws3_tail_def)
next
  case False
  then have "lower_char c = c" by (auto simp: lower_char_def Let_def)
  then show ?thesis by simp
qed

lemma ws3_lower: "ws3 (lower_char a) (lower_char b) (lower_char c) = ws3 a b c"
  by (simp add: ws3_def lower_char_high ws3_tail_lower)

lemma ws_len_lower: "ws_len (map lower_char s) = ws_len s"
  by (cases s) (simp_all add: py_isspace_lower_char ws2_lower ws3_lower split: list.splits)

declare ws_len.simps(2) [simp del]

lemma ascii_blank_all_space: "\<forall>c \<in> set s. py_isspace c \<Longrightarrow> all_space s"
  by (induction s) (simp_all add: ws_len_ascii)

lemma all_space_lstrip: "all_space (lstrip s) = all_space s"
  by (induction s rule: lstrip.induct) auto

lemma rstrip_empty_iff: "rstrip s = [] \<longleftrightarrow> all_space s"
  by (cases s) auto

lemma py_strip_empty_iff: "py_strip s = [] \<longleftrightarrow> all_space s"
  by (simp add: py_strip_def rstrip_empty_iff all_space_lstrip)

lemma word_starts_lower: "word_starts inside (map lower_char s) = word_starts inside s"
proof (induction inside s rule: word_starts.induct)
  case (1 inside)
  then show ?case by simp
next
  case (2 inside c cs)
  have w: "ws_len (lower_char c # map lower_char cs) = ws_len (c # cs)"
    using ws_len_lower [of "c # cs"] by simp
  show ?case
  proof (cases "ws_len (c # cs) = 0")
    case True
    with 2 w show ?thesis by simp
  next
    case False
    have "drop (ws_len (c # cs)) (lower_char c # map lower_char cs) =
          map lower_char (drop (ws_len (c # cs)) (c # cs))"
      using drop_map [of "ws_len (c # cs)" lower_char "c # cs"] by simp
    with 2 w False show ?thesis by simp
  qed
qed

lemma split_from_count:
  "length (split_from cur s) = word_starts (cur \<noteq> []) s + (if cur = [] then 0 else 1)"
  by (induction cur s rule: split_from.induct) auto

lemma py_split_count: "length (py_split (py_lower s)) = spec_word_count s"
  by (simp add: py_split_def split_from_count py_lower_def word_starts_lower spec_word_count_def)

lemma split_from_nonempty: "[] \<notin> set (split_from cur s)"
proof (induction cur s rule: split_from.induct)
  case (1 cur)
  then show ?case by simp
next
  case (2 cur c cs)
  show ?case
  proof (cases "ws_len (c # cs) = 0")
    case True
    with 2 show ?thesis by simp
  next
    case False
    with 2 show ?thesis by (cases "cur = []") simp_all
  qed
qed

lemma py_split_examples:
  "py_split ''  ab  c d '' = [''ab'', ''c'', ''d'']"
  "py_split (''a'' @ [CHR 0xC2, CHR 0xA0] @ ''b'') = [''a'', ''b'']"
  "py_strip ([CHR 0xE2, CHR 0x80, CHR 0x83] @ ''a b '' @ [CHR 0xE3, CHR 0x80, CHR 0x80]) = ''a b''"
  "py_strip [CHR 0xC2, CHR 0xA0] = []"
  by code_simp+

section \<open>Properties of the float operations\<close>

lemma rhe_cases:
  fixes y :: real
  defines "f \<equiv> \<lfloor>y\<rfloor>"
  shows "(round_half_even y = f \<and> y - of_int f \<le> 1 / 2) \<or>
         (round_half_even y = f + 1 \<and> 1 / 2 \<le> y - of_int f)"
  unfolding round_half_even_def Let_def f_def by (simp split: if_splits)

lemma rhe_floor_le: "\<lfloor>y\<rfloor> \<le> round_half_even y"
  using rhe_cases [of y] by auto

lemma rhe_le_floor: "round_half_even y \<le> \<lfloor>y\<rfloor> + 1"
  using rhe_cases [of y] by auto

lemma rhe_of_int: "round_half_even (of_int k) = k"
  by (simp add: round_half_even_def)

lemma rhe_mono:
  assumes "x \<le> y"
  shows "round_half_even x \<le> round_half_even y"
proof (cases "\<lfloor>x\<rfloor> = \<lfloor>y\<rfloor>")
  case True
  define f where "f = \<lfloor>y\<rfloor>"
  have fx: "\<lfloor>x\<rfloor> = f" using True f_def by simp
  have d: "x - of_int f \<le> y - of_int f" using assms by simp
  show ?thesis
    using d unfolding round_half_even_def Let_def fx f_def [symmetric]
    by (auto split: if_splits)
next
  case False
  have "\<lfloor>x\<rfloor> \<le> \<lfloor>y\<rfloor>" using assms by (rule floor_mono)
  with False have "\<lfloor>x\<rfloor> + 1 \<le> \<lfloor>y\<rfloor>" by simp
  with rhe_le_floor [of x] rhe_floor_le [of y] show ?thesis by linarith
qed

lemma rhe_minus: "round_half_even (- y) = - round_half_even y"
proof (cases "y = of_int \<lfloor>y\<rfloor>")
  case True
  then obtain k where "y = of_int k" ..
  then show ?thesis using rhe_of_int [of k] rhe_of_int [of "- k"] by simp
next
  case False
  define f where "f = \<lfloor>y\<rfloor>"
  have lo: "of_int f < y" and hi: "y < of_int f + 1"
    using False unfolding f_def by linarith+
  have fm: "\<lfloor>- y\<rfloor> = - f - 1"
    using lo hi by (intro floor_unique) auto
  show ?thesis
    unfolding round_half_even_def Let_def fm f_def [symmetric]
    using lo hi by (auto split: if_splits)
qed


lemma powr2_int: "(2::real) powr real_of_int k = 2 powi k"
  by (simp add: powr_real_of_int')

lemma floor_log2_bounds:
  assumes "0 < x"
  shows "2 powi \<lfloor>log 2 x\<rfloor> \<le> x" "x < 2 powi (\<lfloor>log 2 x\<rfloor> + 1)"
proof -
  have "2 powr real_of_int \<lfloor>log 2 x\<rfloor> \<le> x \<and> x < 2 powr real_of_int (\<lfloor>log 2 x\<rfloor> + 1)"
    using floor_log_eq_powr_iff [of x 2 "\<lfloor>log 2 x\<rfloor>"] assms by simp
  then show "2 powi \<lfloor>log 2 x\<rfloor> \<le> x" "x < 2 powi (\<lfloor>log 2 x\<rfloor> + 1)"
    unfolding powr2_int by blast+
qed

lemma floor_log2_eq:
  assumes "0 < x" "2 powi e \<le> x" "x < 2 powi (e + 1)"
  shows "\<lfloor>log 2 x\<rfloor> = e"
proof -
  have "2 powr real_of_int e \<le> x \<and> x < 2 powr real_of_int (e + 1)"
    unfolding powr2_int using assms by blast
  moreover have "(\<lfloor>log 2 x\<rfloor> = e) =
      (2 powr real_of_int e \<le> x \<and> x < 2 powr real_of_int (e + 1))"
    by (rule floor_log_eq_powr_iff) (use assms(1) in simp_all)
  ultimately show ?thesis by blast
qed

lemma expo_eq:
  assumes "2 powi e \<le> \<bar>x\<bar>" "\<bar>x\<bar> < 2 powi (e + 1)" "- 1022 \<le> e"
  shows "expo x = e"
proof -
  have "0 < \<bar>x\<bar>" using assms(1) by (smt (verit) zero_less_power_int)
  from floor_log2_eq [OF this assms(1,2)] assms(3) show ?thesis by (simp add: expo_def)
qed

lemma expo_minus: "expo (- x) = expo x"
  by (simp add: expo_def)

lemma expo_upper: "x \<noteq> 0 \<Longrightarrow> \<bar>x\<bar> < 2 powi (expo x + 1)"
proof -
  assume "x \<noteq> 0"
  then have p: "0 < \<bar>x\<bar>" by simp
  have "\<bar>x\<bar> < 2 powi (\<lfloor>log 2 \<bar>x\<bar>\<rfloor> + 1)" using floor_log2_bounds(2) [OF p] .
  also have "\<dots> \<le> 2 powi (expo x + 1)"
    by (intro power_int_increasing) (simp_all add: expo_def)
  finally show ?thesis .
qed

lemma expo_lower: "x \<noteq> 0 \<Longrightarrow> - 1022 < expo x \<Longrightarrow> 2 powi expo x \<le> \<bar>x\<bar>"
proof -
  assume "x \<noteq> 0" and e: "- 1022 < expo x"
  then have p: "0 < \<bar>x\<bar>" by simp
  have "expo x = \<lfloor>log 2 \<bar>x\<bar>\<rfloor>" using e by (simp add: expo_def max_def split: if_splits)
  then show ?thesis using floor_log2_bounds(1) [OF p] by simp
qed

lemma expo_mono:
  assumes "0 < x" "x \<le> y"
  shows "expo x \<le> expo y"
proof -
  have "log 2 x \<le> log 2 y" using assms by simp
  then have "\<lfloor>log 2 x\<rfloor> \<le> \<lfloor>log 2 y\<rfloor>" by (rule floor_mono)
  then have "max \<lfloor>log 2 x\<rfloor> (- 1022) \<le> max \<lfloor>log 2 y\<rfloor> (- 1022)"
    by (rule max.mono) simp
  moreover have "\<bar>x\<bar> = x" "\<bar>y\<bar> = y" using assms by simp_all
  ultimately show ?thesis unfolding expo_def by simp
qed

lemma double_minus: "double (- x) = - double x"
  by (simp add: double_def expo_minus rhe_minus)

lemma double_zero: "double 0 = 0"
  by (simp add: double_def)

lemma pow53: "2 ^ 53 * (2::real) powi (e - 52) = 2 powi (e + 1)"
proof -
  have "(2::real) powi 53 * 2 powi (e - 52) = 2 powi (53 + (e - 52))"
    by (rule power_int_add [symmetric]) simp
  moreover have "53 + (e - 52) = e + 1" by simp
  ultimately show ?thesis by simp
qed

lemma pow52: "2 ^ 52 * (2::real) powi (e - 52) = 2 powi e"
proof -
  have "(2::real) powi 52 * 2 powi (e - 52) = 2 powi (52 + (e - 52))"
    by (rule power_int_add [symmetric]) simp
  moreover have "52 + (e - 52) = e" by simp
  ultimately show ?thesis by simp
qed

lemma double_pos_upper:
  assumes "0 < x"
  shows "double x \<le> 2 powi (expo x + 1)"
proof -
  let ?u = "(2::real) powi (expo x - 52)"
  have u: "0 < ?u" by simp
  have "x < 2 powi (expo x + 1)" using expo_upper [of x] assms by simp
  then have "x < 2 ^ 53 * ?u" unfolding pow53 .
  then have "x / ?u \<le> 2 ^ 53" using u by (simp add: field_simps)
  then have "x / ?u \<le> real_of_int (2 ^ 53)" by simp
  then have "round_half_even (x / ?u) \<le> round_half_even (of_int (2 ^ 53))"
    by (rule rhe_mono)
  then have "real_of_int (round_half_even (x / ?u)) \<le> real_of_int (2 ^ 53)"
    unfolding rhe_of_int by (simp only: of_int_le_iff)
  then have "real_of_int (round_half_even (x / ?u)) \<le> 2 ^ 53" by simp
  then have "real_of_int (round_half_even (x / ?u)) * ?u \<le> 2 ^ 53 * ?u"
    using u by (intro mult_right_mono) simp_all
  then show ?thesis using assms unfolding pow53 by (simp add: double_def)
qed

lemma double_pos_lower:
  assumes "0 < x" "- 1022 < expo x"
  shows "2 powi expo x \<le> double x"
proof -
  let ?u = "(2::real) powi (expo x - 52)"
  have u: "0 < ?u" by simp
  have "2 powi expo x \<le> x" using expo_lower [of x] assms by simp
  then have "2 ^ 52 * ?u \<le> x" unfolding pow52 .
  then have "2 ^ 52 \<le> x / ?u" using u by (simp add: field_simps)
  then have "real_of_int (2 ^ 52) \<le> x / ?u" by simp
  then have "round_half_even (of_int (2 ^ 52)) \<le> round_half_even (x / ?u)"
    by (rule rhe_mono)
  then have "real_of_int (2 ^ 52) \<le> real_of_int (round_half_even (x / ?u))"
    unfolding rhe_of_int by (simp only: of_int_le_iff)
  then have "2 ^ 52 \<le> real_of_int (round_half_even (x / ?u))" by simp
  then have "2 ^ 52 * ?u \<le> real_of_int (round_half_even (x / ?u)) * ?u"
    using u by (intro mult_right_mono) simp_all
  then show ?thesis using assms unfolding pow52 by (simp add: double_def)
qed

lemma double_nonneg: "0 \<le> x \<Longrightarrow> 0 \<le> double x"
proof -
  assume x: "0 \<le> x"
  have "0 \<le> x / 2 powi (expo x - 52)" using x by simp
  then have "round_half_even (of_int 0) \<le> round_half_even (x / 2 powi (expo x - 52))"
    by (intro rhe_mono) simp
  then have "0 \<le> round_half_even (x / 2 powi (expo x - 52))"
    unfolding rhe_of_int .
  then show ?thesis by (simp add: double_def)
qed

lemma double_mono_pos:
  assumes "0 < x" "x \<le> y"
  shows "double x \<le> double y"
proof (cases "expo x = expo y")
  case True
  let ?u = "(2::real) powi (expo y - 52)"
  have u: "0 < ?u" by simp
  have "x / ?u \<le> y / ?u" using assms u by (simp add: divide_right_mono)
  then have "round_half_even (x / ?u) \<le> round_half_even (y / ?u)" by (rule rhe_mono)
  then have "real_of_int (round_half_even (x / ?u)) * ?u \<le> real_of_int (round_half_even (y / ?u)) * ?u"
    using u by (intro mult_right_mono) simp_all
  then show ?thesis using assms True by (simp add: double_def)
next
  case False
  have y: "0 < y" using assms by simp
  have "expo x \<le> expo y" using assms by (rule expo_mono)
  with False have lt: "expo x + 1 \<le> expo y" by simp
  have "- 1022 \<le> expo x" by (simp add: expo_def)
  with lt have "- 1022 < expo y" by simp
  have "double x \<le> 2 powi (expo x + 1)" using assms(1) by (rule double_pos_upper)
  also have "\<dots> \<le> 2 powi expo y" using lt by (intro power_int_increasing) simp_all
  also have "\<dots> \<le> double y" using y \<open>- 1022 < expo y\<close> by (rule double_pos_lower)
  finally show ?thesis .
qed

lemma double_mono:
  assumes "x \<le> y"
  shows "double x \<le> double y"
proof -
  consider (pos) "0 < x" | (neg) "y < 0" | (mid) "x \<le> 0" "0 \<le> y" by linarith
  then show ?thesis
  proof cases
    case pos
    then show ?thesis using assms by (rule double_mono_pos)
  next
    case neg
    have "double (- y) \<le> double (- x)" using neg assms by (intro double_mono_pos) simp_all
    then show ?thesis by (simp add: double_minus)
  next
    case mid
    have "0 \<le> double (- x)" using mid(1) by (intro double_nonneg) simp
    then have "double x \<le> 0" by (simp add: double_minus)
    also have "0 \<le> double y" using mid(2) by (rule double_nonneg)
    finally show ?thesis .
  qed
qed

lemma double_eval:
  assumes "2 powi e \<le> \<bar>x\<bar>" "\<bar>x\<bar> < 2 powi (e + 1)" "- 1022 \<le> e"
  shows "double x = of_int (round_half_even (x / 2 powi (e - 52))) * 2 powi (e - 52)"
proof -
  have "0 < \<bar>x\<bar>" using assms(1) by (smt (verit) zero_less_power_int)
  then have "x \<noteq> 0" by simp
  then show ?thesis by (simp add: double_def expo_eq [OF assms])
qed

lemma rhe_eqI:
  assumes "\<bar>y - of_int k\<bar> < 1 / 2"
  shows "round_half_even y = k"
proof -
  have f: "\<lfloor>y\<rfloor> = k \<or> \<lfloor>y\<rfloor> = k - 1" using assms by linarith
  show ?thesis
    using assms f unfolding round_half_even_def Let_def
    by (auto split: if_splits)
qed

lemma double_eqI:
  assumes "2 powi e \<le> \<bar>x\<bar>" "\<bar>x\<bar> < 2 powi (e + 1)" "- 1022 \<le> e"
    and "round_half_even (x / 2 powi (e - 52)) = k" "y = of_int k * 2 powi (e - 52)"
  shows "double x = y"
  using double_eval [OF assms(1-3)] assms(4,5) by simp


lemma double_4: "double (4) = 4"
  by (rule double_eqI [where e = "2" and k = "4503599627370496"]) (simp_all add: round_half_even_def)

lemma double_2_5: "double (5 / 2) = 5 / 2"
  by (rule double_eqI [where e = "1" and k = "5629499534213120"]) (simp_all add: round_half_even_def)

lemma double_6_5: "double (13 / 2) = 13 / 2"
  by (rule double_eqI [where e = "2" and k = "7318349394477056"]) (simp_all add: round_half_even_def)

lemma double_10: "double (10) = 10"
  by (rule double_eqI [where e = "3" and k = "5629499534213120"]) (simp_all add: round_half_even_def)

lemma double_quarter: "double (1 / 4) = 1 / 4"
  by (rule double_eqI [where e = "-2" and k = "4503599627370496"]) (simp_all add: round_half_even_def)

lemma double_4_25: "double (17 / 4) = 17 / 4"
  by (rule double_eqI [where e = "2" and k = "4785074604081152"]) (simp_all add: round_half_even_def)

lemma double_1_25: "double (5 / 4) = 5 / 4"
  by (rule double_eqI [where e = "0" and k = "5629499534213120"]) (simp_all add: round_half_even_def)

lemma double_5_25: "double (21 / 4) = 21 / 4"
  by (rule double_eqI [where e = "2" and k = "5910974510923776"]) (simp_all add: round_half_even_def)

lemma double_half: "double (1 / 2) = 1 / 2"
  by (rule double_eqI [where e = "-1" and k = "4503599627370496"]) (simp_all add: round_half_even_def)

lemma double_0_8: "double 0.8 = 3602879701896397 / 2 ^ 52"
  by (rule double_eqI [where e = "-1" and k = "7205759403792794"]) (simp_all add: round_half_even_def)

lemma double_1_3: "double (5854679515581645 / 2 ^ 52) = 5854679515581645 / 2 ^ 52"
  by (rule double_eqI [where e = "0" and k = "5854679515581645"]) (simp_all add: round_half_even_def)

lemma double_neg_half: "double (- (1 / 2)) = - (1 / 2)"
  using double_minus [of "1 / 2"] by (simp add: double_half)


section \<open>Properties of the Solution Scorer\<close>

lemma uniform_lower:
  assumes "a \<le> b" "0 \<le> r" "double a = a"
  shows "a \<le> uniform a b r"
proof -
  have "0 \<le> fsub b a" unfolding fsub_def using assms(1) by (intro double_nonneg) simp
  then have "0 \<le> fsub b a * r" using assms(2) by simp
  then have "0 \<le> fmul (fsub b a) r" unfolding fmul_def by (rule double_nonneg)
  then have "double a \<le> double (a + fmul (fsub b a) r)" by (intro double_mono) simp
  then show ?thesis by (simp add: uniform_def fadd_def assms(3))
qed

lemma uniform_upper:
  assumes "a \<le> b" "r \<le> 1"
  shows "uniform a b r \<le> fadd a (double (fsub b a))"
proof -
  have d: "0 \<le> fsub b a" unfolding fsub_def using assms(1) by (intro double_nonneg) simp
  have "fsub b a * r \<le> fsub b a * 1" using d assms(2) by (intro mult_left_mono) simp_all
  then have "fmul (fsub b a) r \<le> double (fsub b a)"
    unfolding fmul_def by (intro double_mono) simp
  then have "double (a + fmul (fsub b a) r) \<le> double (a + double (fsub b a))"
    by (intro double_mono) simp
  then show ?thesis by (simp add: uniform_def fadd_def)
qed

lemma blank_draw_bounds:
  assumes "0 \<le> r" "r \<le> 1"
  shows "4 \<le> uniform 4.0 6.5 r" "uniform 4.0 6.5 r \<le> 6.5"
proof -
  show "4 \<le> uniform 4.0 6.5 r"
    using uniform_lower [of 4 "6.5" r] assms(1) double_4 by simp
  have "fadd 4 (double (fsub 6.5 4)) = 6.5"
    by (simp add: fadd_def fsub_def double_2_5 double_6_5)
  then show "uniform 4.0 6.5 r \<le> 6.5"
    using uniform_upper [of 4 "6.5" r] assms(2) by simp
qed

lemma blank_draw_half: "uniform 4 (13 / 2) (1 / 2) = 21 / 4"
  by (simp add: uniform_def fadd_def fmul_def fsub_def double_2_5 double_1_25 double_5_25)

lemma blank_draw_tenth: "uniform 4 (13 / 2) (1 / 10) = 17 / 4"
  by (simp add: uniform_def fadd_def fmul_def fsub_def double_2_5 double_quarter double_4_25)

lemma double_tenth: "double (1 / 10) = 3602879701896397 / 2 ^ 55"
  by (rule double_eqI [where e = "-4" and k = "7205759403792794"]) (simp_all add: round_half_even_def)

lemma blank_draw_tenth_float: "uniform 4 (13 / 2) (double (1 / 10)) = 17 / 4"
  \<comment> \<open>the same score for the float \<open>0.1\<close> as the draw\<close>
proof -
  have m: "fmul (5 / 2) (3602879701896397 / 2 ^ 55) = 1 / 4"
    unfolding fmul_def
    by (rule double_eqI [where e = "-2" and k = "4503599627370496"]) (simp_all add: round_half_even_def)
  have s: "fsub (13 / 2) 4 = 5 / 2"
    by (simp add: fsub_def double_2_5)
  show ?thesis
    unfolding uniform_def s double_tenth m by (simp add: fadd_def double_4_25)
qed

lemma noise_bounds:
  assumes "0 \<le> r" "r \<le> 1"
  shows "- 0.5 \<le> uniform (- 0.5) (double 0.8) r" "uniform (- 0.5) (double 0.8) r \<le> double 0.8"
proof -
  have le: "- 0.5 \<le> double 0.8" unfolding double_0_8 by simp
  show "- 0.5 \<le> uniform (- 0.5) (double 0.8) r"
    using uniform_lower [OF le assms(1)] double_neg_half by simp
  have d: "fsub (double 0.8) (- 0.5) = 5854679515581645 / 2 ^ 52"
    unfolding fsub_def double_0_8
    by (rule double_eqI [where e = "0" and k = "5854679515581645"]) (simp_all add: round_half_even_def)
  have "fadd (- 0.5) (double (fsub (double 0.8) (- 0.5))) = 3602879701896397 / 2 ^ 52"
    unfolding d double_1_3 fadd_def
    by (rule double_eqI [where e = "- 1" and k = "7205759403792794"]) (simp_all add: round_half_even_def)
  then have "fadd (- 0.5) (double (fsub (double 0.8) (- 0.5))) = double 0.8"
    unfolding double_0_8 .
  then show "uniform (- 0.5) (double 0.8) r \<le> double 0.8"
    using uniform_upper [OF le assms(2)] by simp
qed

lemma py_round1_cases:
  fixes x :: real
  defines "f \<equiv> \<lfloor>x * 10\<rfloor>"
  shows "(py_round1 x = of_int f / 10 \<and> x * 10 - of_int f \<le> 1 / 2) \<or>
         (py_round1 x = of_int (f + 1) / 10 \<and> 1 / 2 \<le> x * 10 - of_int f)"
  unfolding py_round1_def Let_def f_def by (simp split: if_splits)

lemma one_decimal_of_int: "one_decimal (of_int k / 10)"
  by (simp add: one_decimal_def)

lemma py_round1_one_decimal: "one_decimal (py_round1 x)"
  using py_round1_cases [of x] one_decimal_of_int by metis

lemma py_round1_range:
  assumes "0 \<le> x" "x \<le> 10"
  shows "0 \<le> py_round1 x \<and> py_round1 x \<le> 10"
proof -
  define f where "f = \<lfloor>x * 10\<rfloor>"
  have lo: "of_int f \<le> x * 10" and hi: "x * 10 < of_int f + 1"
    unfolding f_def by linarith+
  have f0: "0 \<le> f" unfolding f_def using assms by simp
  then have rf0: "0 \<le> real_of_int f" by linarith
  consider (down) "py_round1 x = of_int f / 10"
    | (up) "py_round1 x = of_int (f + 1) / 10" "1 / 2 \<le> x * 10 - of_int f"
    using py_round1_cases [of x] unfolding f_def by blast
  then show ?thesis
  proof cases
    case down
    have "real_of_int f \<le> 100" using lo assms by linarith
    with rf0 show ?thesis unfolding down by simp
  next
    case up
    have "real_of_int f < 100" using up(2) assms by linarith
    then have "f < 100" by linarith
    then have "real_of_int (f + 1) \<le> 100" by linarith
    moreover have "0 \<le> real_of_int (f + 1)" using f0 by linarith
    ultimately show ?thesis unfolding up(1) by simp
  qed
qed

lemma py_round1_near: "\<bar>py_round1 x - x\<bar> \<le> 1 / 20"
proof -
  define f where "f = \<lfloor>x * 10\<rfloor>"
  have lo: "of_int f \<le> x * 10" and hi: "x * 10 < of_int f + 1"
    unfolding f_def by linarith+
  consider (down) "py_round1 x = of_int f / 10" "x * 10 - of_int f \<le> 1 / 2"
    | (up) "py_round1 x = of_int (f + 1) / 10" "1 / 2 \<le> x * 10 - of_int f"
    using py_round1_cases [of x] unfolding f_def by blast
  then show ?thesis
  proof cases
    case down
    have "\<bar>real_of_int f / 10 - x\<bar> \<le> 1 / 20" using lo down(2) by linarith
    then show ?thesis unfolding down(1) .
  next
    case up
    have "\<bar>(real_of_int f + 1) / 10 - x\<bar> \<le> 1 / 20" using hi up(2) by argo
    then show ?thesis unfolding up(1) by simp
  qed
qed

lemma py_round1_is_round_half_even: "py_round1 x = of_int (round_half_even (x * 10)) / 10"
  by (simp add: py_round1_def round_half_even_def Let_def)

lemma float_round1_range:
  assumes "0 \<le> x" "x \<le> 10"
  shows "0 \<le> float_round1 x \<and> float_round1 x \<le> 10"
proof -
  have r: "0 \<le> py_round1 x" "py_round1 x \<le> 10" using py_round1_range [OF assms] by simp_all
  have "double 0 \<le> double (py_round1 x)" using r(1) by (rule double_mono)
  moreover have "double (py_round1 x) \<le> double 10" using r(2) by (rule double_mono)
  ultimately show ?thesis by (simp add: float_round1_def double_zero double_10)
qed

lemma simulate_scoring_all_space:
  "all_space s \<Longrightarrow> simulate_scoring (Some s) r = uniform 4.0 6.5 r"
  by (simp add: simulate_scoring_def py_strip_empty_iff)

lemma simulate_scoring_blank:
  "\<forall>c \<in> set s. py_isspace c \<Longrightarrow> simulate_scoring (Some s) r = uniform 4.0 6.5 r"
  by (intro simulate_scoring_all_space ascii_blank_all_space)

lemma add_boosts_keywords:
  "add_boosts (py_lower s) keyword_boosts x =
     spec_boost s ''hyperparameter'' (double 0.6)
       (spec_boost s ''ensemble'' (double 0.6)
         (spec_boost s ''cross'' (double 0.4)
           (spec_boost s ''validation'' (double 0.7) (spec_boost s ''feature'' 0.5 x))))"
  unfolding keyword_boosts_def spec_boost_def by (simp only: add_boosts.simps)

lemma simulate_scoring_nonblank:
  assumes "\<not> all_space s"
  shows "simulate_scoring (Some s) r = spec_score s (uniform (- 0.5) (double 0.8) r)"
proof -
  have ne: "\<not> (s = [] \<or> py_strip s = [])"
    using assms py_strip_empty_iff [of s] by auto
  have "simulate_scoring (Some s) r =
          float_round1 (max 0.0 (min 10.0
            (fadd (add_boosts (py_lower s) keyword_boosts
                 (min 10.0
                    (fadd 3.0 (fmul (float_of_nat (length (py_split (py_lower s)))) (double 0.03)))))
               (uniform (- 0.5) (double 0.8) r))))"
    unfolding simulate_scoring_def Let_def option.case if_not_P [OF ne] ..
  also have "\<dots> = spec_score s (uniform (- 0.5) (double 0.8) r)"
    unfolding spec_score_def Let_def add_boosts_keywords py_split_count ..
  finally show ?thesis .
qed

lemma simulate_scoring_rounded:
  assumes "\<not> all_space s"
  shows "\<exists>k :: int. simulate_scoring (Some s) r = double (of_int k / 10)"
  unfolding simulate_scoring_nonblank [OF assms] spec_score_def Let_def float_round1_def
    py_round1_is_round_half_even by blast

lemma simulate_scoring_range:
  assumes "0 \<le> r" "r \<le> 1"
  shows "0 \<le> simulate_scoring t r \<and> simulate_scoring t r \<le> 10"
proof -
  have u: "0 \<le> uniform 4.0 6.5 r \<and> uniform 4.0 6.5 r \<le> 10"
    using blank_draw_bounds [OF assms] by simp
  have rnd: "0 \<le> float_round1 (max 0.0 (min 10.0 x)) \<and> float_round1 (max 0.0 (min 10.0 x)) \<le> 10" for x
    by (rule float_round1_range) simp_all
  show ?thesis
  proof (cases t)
    case None
    then show ?thesis using u by (simp only: simulate_scoring_def option.case)
  next
    case (Some s)
    show ?thesis
    proof (cases "s = [] \<or> py_strip s = []")
      case True
      then show ?thesis using u unfolding Some simulate_scoring_def option.case by (simp only: if_True)
    next
      case False
      show ?thesis
        unfolding Some simulate_scoring_def option.case Let_def if_not_P [OF False] by (rule rnd)
    qed
  qed
qed

text \<open>
  C3. For every solution text that is not blank (not empty and not made of whitespace
  only) and every draw of the generator, the Solution Scorer returns the value the
  specification describes, computed on floats in the order of its steps: the base score
  \<open>min(10.0, 3.0 + word_count * 0.03)\<close>; then, for each of the keywords \<open>feature\<close>,
  \<open>validation\<close>, \<open>cross\<close>, \<open>ensemble\<close>, \<open>hyperparameter\<close> that occurs in the lower-cased
  text, its boost 0.5, 0.7, 0.4, 0.6, 0.6, each keyword on its own; then the noise; then
  the clamp to [0.0, 10.0] and the rounding to one decimal. The word count is the number
  of word starts of the text. The noise of a draw of the unit interval lies between the
  floats -0.5 and 0.8.
\<close>

theorem simulate_scoring_formula:
  assumes "\<not> all_space s"
  shows "simulate_scoring (Some s) r = spec_score s (uniform (- 0.5) (double 0.8) r) \<and>
         (0 \<le> r \<and> r \<le> 1 \<longrightarrow>
            - 0.5 \<le> uniform (- 0.5) (double 0.8) r \<and>
            uniform (- 0.5) (double 0.8) r \<le> double 0.8)"
  using simulate_scoring_nonblank [OF assms] noise_bounds by blast

theorem simulate_scoring_formula_witness:
  "\<not> all_space ''feature x x x x x x x x x'' \<and>
   spec_word_count ''feature x x x x x x x x x'' = 10 \<and>
   simulate_scoring (Some ''feature x x x x x x x x x'') (1 / 2) = double 3.9 \<and>
   spec_score ''feature x x x x x x x x x'' (uniform (- 0.5) (double 0.8) (1 / 2)) = double 3.9"
proof -
  let ?s = "''feature x x x x x x x x x''"
  have nb: "\<not> all_space ?s" by code_simp
  have n: "spec_word_count ?s = 10" by code_simp
  have k: "py_in ''feature'' (py_lower ?s) = True" "py_in ''validation'' (py_lower ?s) = False"
    "py_in ''cross'' (py_lower ?s) = False" "py_in ''ensemble'' (py_lower ?s) = False"
    "py_in ''hyperparameter'' (py_lower ?s) = False"
    by code_simp+
  have c: "double 0.03 = 1080863910568919 / 2 ^ 55"
    by (rule double_eqI [where e = "-6" and k = "8646911284551352"]) (simp_all add: round_half_even_def)

  have h: "double 0.8 = 3602879701896397 / 2 ^ 52"
    by (rule double_eqI [where e = "-1" and k = "7205759403792794"]) (simp_all add: round_half_even_def)

  have w: "float_of_nat 10 = 10"
    unfolding float_of_nat_def of_nat_numeral
    by (rule double_eqI [where e = "3" and k = "5629499534213120"]) (simp_all add: round_half_even_def)

  have p: "fmul (float_of_nat 10) (double 0.03) = 5404319552844595 / 2 ^ 54"
    unfolding w c fmul_def
    by (rule double_eqI [where e = "-2" and k = "5404319552844595"]) (simp_all add: round_half_even_def)

  have b: "fadd 3.0 (fmul (float_of_nat 10) (double 0.03)) = 3715469692580659 / 2 ^ 50"
    unfolding p fadd_def
    by (rule double_eqI [where e = "1" and k = "7430939385161318"]) (simp_all add: round_half_even_def)

  have b1: "fadd (3715469692580659 / 2 ^ 50) 0.5 = 4278419646001971 / 2 ^ 50"
    unfolding fadd_def
    by (rule double_eqI [where e = "1" and k = "8556839292003942"]) (simp_all add: round_half_even_def)

  have d: "fsub (double 0.8) (- 0.5) = 5854679515581645 / 2 ^ 52"
    unfolding h fsub_def
    by (rule double_eqI [where e = "0" and k = "5854679515581645"]) (simp_all add: round_half_even_def)

  have m: "fmul (fsub (double 0.8) (- 0.5)) (1 / 2) = 5854679515581645 / 2 ^ 53"
    unfolding d fmul_def
    by (rule double_eqI [where e = "-1" and k = "5854679515581645"]) (simp_all add: round_half_even_def)

  have nz: "uniform (- 0.5) (double 0.8) (1 / 2) = 1351079888211149 / 2 ^ 53"
    unfolding uniform_def m fadd_def
    by (rule double_eqI [where e = "-3" and k = "5404319552844596"]) (simp_all add: round_half_even_def)

  have t: "fadd (4278419646001971 / 2 ^ 50) (1351079888211149 / 2 ^ 53) = 8894609264056729 / 2 ^ 51"
    unfolding fadd_def
    by (rule double_eqI [where e = "1" and k = "8894609264056729"]) (simp_all add: round_half_even_def)

  have base: "min 10.0 (fadd 3.0 (fmul (float_of_nat (spec_word_count ?s)) (double 0.03))) = 3715469692580659 / 2 ^ 50"
    unfolding n b by simp
  have s1: "spec_boost ?s ''feature'' 0.5 (3715469692580659 / 2 ^ 50) = 4278419646001971 / 2 ^ 50"
    unfolding spec_boost_def k if_True b1 ..
  have s2: "spec_boost ?s ''validation'' (double 0.7) (4278419646001971 / 2 ^ 50) = 4278419646001971 / 2 ^ 50"
    "spec_boost ?s ''cross'' (double 0.4) (4278419646001971 / 2 ^ 50) = 4278419646001971 / 2 ^ 50"
    "spec_boost ?s ''ensemble'' (double 0.6) (4278419646001971 / 2 ^ 50) = 4278419646001971 / 2 ^ 50"
    "spec_boost ?s ''hyperparameter'' (double 0.6) (4278419646001971 / 2 ^ 50) = 4278419646001971 / 2 ^ 50"
    unfolding spec_boost_def k if_False by (rule refl)+
  have clamp: "max 0.0 (min 10.0 (8894609264056729 / 2 ^ 51)) = (8894609264056729 / 2 ^ 51 :: real)"
    by simp
  have rd: "py_round1 (8894609264056729 / 2 ^ 51) = 3.9"
    by (simp add: py_round1_def)
  have v: "spec_score ?s (uniform (- 0.5) (double 0.8) (1 / 2)) = double 3.9"
    unfolding spec_score_def Let_def base s1 s2 nz t clamp float_round1_def rd ..
  have "simulate_scoring (Some ?s) (1 / 2) = double 3.9"
    using simulate_scoring_formula [OF nb, of "1 / 2"] v by simp
  then show ?thesis using nb n v by (intro conjI)
qed

text \<open>
  C6. For every empty or whitespace-only solution text and every draw of the generator,
  the Solution Scorer returns a value in [4.0, 6.5], and the Discount Mapper maps that
  value to the 15% participant tier.
\<close>

theorem blank_solution_scores_low:
  assumes "\<forall>c \<in> set s. py_isspace c" "0 \<le> r" "r \<le> 1"
  shows "4.0 \<le> simulate_scoring (Some s) r \<and> simulate_scoring (Some s) r \<le> 6.5 \<and>
         discount_by_score (Finite (simulate_scoring (Some s) r)) =
           \<lparr>tier = [CHR 0xF0, CHR 0x9F, CHR 0x8E, CHR 0xAF] @ '' 15% OFF (Participant)'',
            savings = ''15%''\<rparr>"
proof -
  have u: "4.0 \<le> uniform 4.0 6.5 r" "uniform 4.0 6.5 r \<le> 6.5"
    using blank_draw_bounds [OF assms(2,3)] by simp_all
  then show ?thesis
    by (simp add: simulate_scoring_blank [OF assms(1)] discount_by_score_def)
qed

theorem blank_solution_scores_low_witness:
  "list_all py_isspace [CHR '' '', CHR 0x09, CHR 0x0A] \<and>
   simulate_scoring (Some [CHR '' '', CHR 0x09, CHR 0x0A]) (1 / 2) = 5.25 \<and>
   savings (discount_by_score (Finite (simulate_scoring (Some [CHR '' '', CHR 0x09, CHR 0x0A]) (1 / 2)))) = ''15%''"
proof -
  have ws: "\<forall>c \<in> set [CHR '' '', CHR 0x09, CHR 0x0A]. py_isspace c"
    by (simp add: py_isspace_def)
  have v: "simulate_scoring (Some [CHR '' '', CHR 0x09, CHR 0x0A]) (1 / 2) = 5.25"
    unfolding simulate_scoring_blank [OF ws] by (simp add: blank_draw_half)
  have l: "list_all py_isspace [CHR '' '', CHR 0x09, CHR 0x0A]"
    by (simp add: py_isspace_def)
  have d: "savings (discount_by_score (Finite (simulate_scoring (Some [CHR '' '', CHR 0x09, CHR 0x0A]) (1 / 2)))) = ''15%''"
    using blank_solution_scores_low [OF ws, of "1 / 2"] by simp
  show ?thesis using l v d by (intro conjI)
qed

text \<open>
  C1. The score of the empty text is the raw draw from [4.0, 6.5]: with the draw 0.1 of
  the generator it is 4.25, which has two decimal places. The path of a text that is not
  blank rounds its result (\<open>simulate_scoring_rounded\<close>), and every score lies in
  [0, 10] (\<open>simulate_scoring_range\<close>).
\<close>

theorem simulate_scoring_empty_not_rounded:
  "simulate_scoring (Some []) (1 / 10) = 4.25 \<and>
   \<not> one_decimal (simulate_scoring (Some []) (1 / 10)) \<and>
   one_decimal (py_round1 (simulate_scoring (Some []) (1 / 10)))"
  by (simp add: simulate_scoring_def blank_draw_tenth one_decimal_def py_round1_def Let_def)

section \<open>Properties of the Profile Extractor\<close>

lemma py_in_iff_sublist: "py_in kw t \<longleftrightarrow> sublist kw t"
  by (induction t) (auto simp: sublist_Cons_right)

lemma py_in_set: "py_in kw text \<Longrightarrow> set kw \<subseteq> set text"
  by (auto simp: py_in_iff_sublist dest: set_mono_sublist)

lemma scan_kwlist_eq:
  "scan_kwlist text kws (count, found) =
     (count + kw_count text kws, found \<union> {kw \<in> set kws. py_in kw text})"
  by (induction kws arbitrary: count found) (auto simp: kw_count_def)

lemma update_fresh: "r \<notin> fst ` set scores \<Longrightarrow> AList.update r v scores = scores @ [(r, v)]"
  by (induction scores) auto

lemma score_roles_eq:
  "distinct (map fst kd) \<Longrightarrow> fst ` set kd \<inter> fst ` set scores = {} \<Longrightarrow>
   score_roles text kd (scores, found) =
     (scores @ map (\<lambda>(r, kwlist). (r, kw_count text kwlist)) kd,
      found \<union> {kw \<in> \<Union> (set ` snd ` set kd). py_in kw text})"
proof (induction kd arbitrary: scores found)
  case Nil
  then show ?case by simp
next
  case (Cons a kd)
  obtain r kwlist where a: "a = (r, kwlist)" by (cases a)
  have fresh: "r \<notin> fst ` set scores" using Cons.prems(2) a by auto
  have d: "distinct (map fst kd)" and rn: "r \<notin> fst ` set kd"
    using Cons.prems(1) a by auto
  have disj: "fst ` set kd \<inter> fst ` set (scores @ [(r, kw_count text kwlist)]) = {}"
    using Cons.prems(2) rn a by auto
  show ?case
    unfolding a
    by (simp add: scan_kwlist_eq update_fresh [OF fresh] Cons.IH [OF d disj]) auto
qed

lemma distinct_roles: "distinct (map fst keywords_dict)"
  by (simp add: keywords_dict_def)

lemma score_roles_keywords:
  "score_roles text keywords_dict ([], {}) =
     (role_counts text, {kw \<in> \<Union> (set ` snd ` set keywords_dict). py_in kw text})"
  using score_roles_eq [OF distinct_roles, of "[]" _ "{}"] by (simp add: role_counts_def)

lemma max_from_keep: "\<forall>p \<in> set xs. snd p \<le> snd b \<Longrightarrow> max_from b xs = b"
  by (induction xs) auto

lemma max_from_later:
  "snd b < snd m \<Longrightarrow> \<forall>p \<in> set pre. snd p < snd m \<Longrightarrow> \<forall>p \<in> set post. snd p \<le> snd m \<Longrightarrow>
   max_from b (pre @ m # post) = m"
  by (induction pre arbitrary: b) (auto simp: max_from_keep)

lemma py_max_first:
  assumes "\<forall>p \<in> set pre. snd p < snd m" "\<forall>p \<in> set post. snd p \<le> snd m"
  shows "py_max_by_value (pre @ m # post) = Inr m"
proof (cases pre)
  case Nil
  then show ?thesis using assms by (simp add: py_max_by_value_def max_from_keep)
next
  case (Cons b pre')
  then show ?thesis using assms by (simp add: py_max_by_value_def max_from_later)
qed

lemma kw_count_pos_iff: "0 < kw_count t kws \<longleftrightarrow> (\<exists>kw \<in> set kws. py_in kw t)"
  by (simp add: kw_count_def filter_empty_conv)

lemma kw_count_zero_iff: "kw_count t kws = 0 \<longleftrightarrow> (\<forall>kw \<in> set kws. \<not> py_in kw t)"
  by (simp add: kw_count_def filter_empty_conv)

lemma extract_nonempty:
  assumes "rt \<noteq> []" "py_max_by_value (role_counts (py_lower rt)) = Inr (best, n)"
  shows "extract_profile_from_resume (Some rt) =
     (let t = py_lower rt;
          e = (if py_in ''senior'' t \<or> py_in ''5+'' t \<or> py_in ''5 years'' t then 6
               else if py_in ''lead'' t \<or> py_in ''3+'' t \<or> py_in ''3 years'' t then 4
               else if py_in ''junior'' t \<or> py_in ''1+'' t \<or> py_in ''1 year'' t then 2
               else (1 :: int))
      in Inr (Some
           \<lparr>role = Some (if n = 0 then ''Data Analyst'' else best),
            experience_years = Some e,
            skills = Some (sorted_list_of_set
                       {kw \<in> \<Union> (set ` snd ` set keywords_dict). py_in kw t}),
            seniority = Some (if e \<ge> 5 then ''Senior'' else if e \<ge> 3 then ''Mid-level'' else ''Junior''),
            raw_text_preview =
              Some (map (\<lambda>c. if c = CHR 0x0A then CHR '' '' else c) (take 100 rt)
                    @ (if length rt > 100 then ''...'' else [])),
            name = None\<rparr>))"
  unfolding extract_profile_from_resume_def option.case if_not_P [OF assms(1)] Let_def
    score_roles_keywords prod.case assms(2) sum.case ..

lemma role_counts_max: "\<exists>m. py_max_by_value (role_counts t) = Inr m"
  by (simp add: role_counts_def keywords_dict_def py_max_by_value_def)

lemma extract_never_raises: "extract_profile_from_resume t \<noteq> Inl e"
proof (cases t)
  case None
  then show ?thesis by (simp add: extract_profile_from_resume_def)
next
  case (Some rt)
  show ?thesis
  proof (cases "rt = []")
    case True
    then show ?thesis by (simp add: Some extract_profile_from_resume_def)
  next
    case False
    obtain best n where "py_max_by_value (role_counts (py_lower rt)) = Inr (best, n)"
      using role_counts_max [of "py_lower rt"] by (metis surj_pair)
    from extract_nonempty [OF False this] show ?thesis
      unfolding Some Let_def by simp
  qed
qed

lemma extract_role:
  assumes "rt \<noteq> []" "py_max_by_value (role_counts (py_lower rt)) = Inr (best, n)"
  shows "\<exists>p. extract_profile_from_resume (Some rt) = Inr (Some p) \<and>
             role p = Some (if n = 0 then ''Data Analyst'' else best)"
  unfolding extract_nonempty [OF assms] Let_def by simp

lemma no_empty_keyword: "(r, kws) \<in> set keywords_dict \<Longrightarrow> [] \<notin> set kws"
  by (auto simp: keywords_dict_def)

lemma kw_count_empty_text: "(r, kws) \<in> set keywords_dict \<Longrightarrow> kw_count [] kws = 0"
  using no_empty_keyword [of r kws] by (auto simp: kw_count_zero_iff)

lemma extract_first_max:
  assumes split: "keywords_dict = pre @ (r, kws) # post"
    and pos: "0 < kw_count (py_lower rt) kws"
    and before: "\<forall>(r', kws') \<in> set pre. kw_count (py_lower rt) kws' < kw_count (py_lower rt) kws"
    and after: "\<forall>(r', kws') \<in> set post. kw_count (py_lower rt) kws' \<le> kw_count (py_lower rt) kws"
  shows "\<exists>p. extract_profile_from_resume (Some rt) = Inr (Some p) \<and> role p = Some r"
proof -
  let ?t = "py_lower rt"
  let ?f = "\<lambda>(r, kwlist). (r, kw_count ?t kwlist)"
  have mem: "(r, kws) \<in> set keywords_dict" unfolding split by simp
  have ne: "rt \<noteq> []"
  proof
    assume "rt = []"
    then have "kw_count ?t kws = 0" using kw_count_empty_text [OF mem] by (simp add: py_lower_def)
    with pos show False by simp
  qed
  have rc: "role_counts ?t = map ?f pre @ (r, kw_count ?t kws) # map ?f post"
    by (simp add: role_counts_def split)
  have "py_max_by_value (role_counts ?t) = Inr (r, kw_count ?t kws)"
    unfolding rc using before after by (intro py_max_first) auto
  from extract_role [OF ne this] pos show ?thesis by simp
qed

lemma extract_no_match:
  assumes "rt \<noteq> []"
    and "\<forall>(r, kws) \<in> set keywords_dict. kw_count (py_lower rt) kws = 0"
  shows "\<exists>p. extract_profile_from_resume (Some rt) = Inr (Some p) \<and> role p = Some ''Data Analyst''"
proof -
  have "\<exists>best. py_max_by_value (role_counts (py_lower rt)) = Inr (best, 0)"
    using assms(2) by (simp add: role_counts_def keywords_dict_def py_max_by_value_def)
  then obtain best where "py_max_by_value (role_counts (py_lower rt)) = Inr (best, 0)" ..
  from extract_role [OF assms(1) this] show ?thesis by simp
qed

lemma blank_contains_no_word:
  assumes "\<forall>c \<in> set t. py_isspace c" "\<exists>c \<in> set kw. \<not> py_isspace c"
  shows "\<not> py_in kw t"
  using assms py_in_set [of kw t] by auto

lemma py_lower_blank: "\<forall>c \<in> set t. py_isspace c \<Longrightarrow> \<forall>c \<in> set (py_lower t). py_isspace c"
  by (auto simp: py_lower_def py_isspace_lower_char)

lemma keywords_have_letters:
  "\<forall>(r, kws) \<in> set keywords_dict. \<forall>kw \<in> set kws. \<exists>c \<in> set kw. \<not> py_isspace c"
  by code_simp

lemma blank_counts:
  assumes "\<forall>c \<in> set t. py_isspace c"
  shows "\<forall>(r, kws) \<in> set keywords_dict. kw_count t kws = 0"
proof clarify
  fix r kws
  assume m: "(r, kws) \<in> set keywords_dict"
  have "\<not> py_in kw t" if "kw \<in> set kws" for kw
    using keywords_have_letters m that by (intro blank_contains_no_word [OF assms]) fastforce
  then show "kw_count t kws = 0" by (simp add: kw_count_zero_iff)
qed

lemma blank_profile:
  assumes ne: "rt \<noteq> []" and ws: "\<forall>c \<in> set rt. py_isspace c"
  shows "\<exists>p. extract_profile_from_resume (Some rt) = Inr (Some p) \<and>
             role p = Some ''Data Analyst'' \<and> experience_years p = Some 1 \<and>
             seniority p = Some ''Junior'' \<and> skills p = Some []"
proof -
  let ?t = "py_lower rt"
  have b: "\<forall>c \<in> set ?t. py_isspace c" using ws by (rule py_lower_blank)
  have z: "\<forall>(r, kws) \<in> set keywords_dict. kw_count ?t kws = 0"
    using b by (rule blank_counts)
  have "\<exists>best. py_max_by_value (role_counts ?t) = Inr (best, 0)"
    using z by (simp add: role_counts_def keywords_dict_def py_max_by_value_def)
  then obtain best where mx: "py_max_by_value (role_counts ?t) = Inr (best, 0)" ..
  have nokw: "{kw \<in> \<Union> (set ` snd ` set keywords_dict). py_in kw ?t} = {}"
    using z by (fastforce simp: kw_count_zero_iff)
  have m: "\<not> py_in ''senior'' ?t" "\<not> py_in ''5+'' ?t" "\<not> py_in ''5 years'' ?t"
    "\<not> py_in ''lead'' ?t" "\<not> py_in ''3+'' ?t" "\<not> py_in ''3 years'' ?t"
    "\<not> py_in ''junior'' ?t" "\<not> py_in ''1+'' ?t" "\<not> py_in ''1 year'' ?t"
    by (rule blank_contains_no_word [OF b], simp add: py_isspace_def)+
  show ?thesis
    unfolding extract_nonempty [OF ne mx] Let_def nokw by (simp add: m)
qed

text \<open>
  C4 (as amended). Counting is on the lower-cased text. When the text contains at least
  one keyword of the list of one role and no keyword of the list of any other role, the
  Profile Extractor returns that role. When a text that is not empty contains no keyword
  of any list, it returns the role Data Analyst. The empty text has no profile at all.
\<close>

theorem role_of_only_matching_list:
  "((r, kws) \<in> set keywords_dict \<and> 0 < kw_count (py_lower rt) kws \<and>
    (\<forall>(r', kws') \<in> set keywords_dict. r' \<noteq> r \<longrightarrow> kw_count (py_lower rt) kws' = 0) \<longrightarrow>
      (\<exists>p. extract_profile_from_resume (Some rt) = Inr (Some p) \<and> role p = Some r)) \<and>
   (rt \<noteq> [] \<and> (\<forall>(r', kws') \<in> set keywords_dict. kw_count (py_lower rt) kws' = 0) \<longrightarrow>
      (\<exists>p. extract_profile_from_resume (Some rt) = Inr (Some p) \<and>
           role p = Some ''Data Analyst'')) \<and>
   extract_profile_from_resume (Some []) = Inr None"
proof (intro conjI impI)
  assume a: "(r, kws) \<in> set keywords_dict \<and> 0 < kw_count (py_lower rt) kws \<and>
    (\<forall>(r', kws') \<in> set keywords_dict. r' \<noteq> r \<longrightarrow> kw_count (py_lower rt) kws' = 0)"
  then obtain pre post where split: "keywords_dict = pre @ (r, kws) # post"
    by (meson split_list)
  have d: "distinct (map fst (pre @ (r, kws) # post))"
    using distinct_roles unfolding split .
  have pos: "0 < kw_count (py_lower rt) kws" using a by simp
  have zero: "kw_count (py_lower rt) (snd e) = 0" if m: "e \<in> set pre \<union> set post" for e
  proof -
    have "fst e \<noteq> r" using d m by (auto simp: image_iff)
    moreover have "e \<in> set keywords_dict" unfolding split using m by auto
    ultimately show ?thesis using a by (cases e) auto
  qed
  have "\<forall>(r', kws') \<in> set pre. kw_count (py_lower rt) kws' < kw_count (py_lower rt) kws"
  proof clarify
    fix r' kws'
    assume "(r', kws') \<in> set pre"
    then have "kw_count (py_lower rt) kws' = 0" using zero [of "(r', kws')"] by simp
    with pos show "kw_count (py_lower rt) kws' < kw_count (py_lower rt) kws" by simp
  qed
  moreover have "\<forall>(r', kws') \<in> set post. kw_count (py_lower rt) kws' \<le> kw_count (py_lower rt) kws"
  proof clarify
    fix r' kws'
    assume "(r', kws') \<in> set post"
    then have "kw_count (py_lower rt) kws' = 0" using zero [of "(r', kws')"] by simp
    then show "kw_count (py_lower rt) kws' \<le> kw_count (py_lower rt) kws" by simp
  qed
  ultimately show "\<exists>p. extract_profile_from_resume (Some rt) = Inr (Some p) \<and> role p = Some r"
    using pos by (intro extract_first_max [OF split])
next
  assume "rt \<noteq> [] \<and> (\<forall>(r', kws') \<in> set keywords_dict. kw_count (py_lower rt) kws' = 0)"
  then show "\<exists>p. extract_profile_from_resume (Some rt) = Inr (Some p) \<and>
           role p = Some ''Data Analyst''"
    using extract_no_match by blast
next
  show "extract_profile_from_resume (Some []) = Inr None"
    by (simp add: extract_profile_from_resume_def)
qed

theorem role_of_only_matching_list_witness:
  "(\<exists>p. extract_profile_from_resume (Some ''I deploy with Terraform on AWS'') = Inr (Some p) \<and>
        role p = Some ''DevOps Engineer'') \<and>
   role_counts (py_lower ''I deploy with Terraform on AWS'') =
     [(''Software Engineer'', 0), (''Data Analyst'', 0), (''Data Scientist'', 0),
      (''Product Manager'', 0), (''DevOps Engineer'', 2)] \<and>
   (\<exists>p. extract_profile_from_resume (Some ''Hello there'') = Inr (Some p) \<and>
        role p = Some ''Data Analyst'') \<and>
   role_counts (py_lower ''Hello there'') =
     [(''Software Engineer'', 0), (''Data Analyst'', 0), (''Data Scientist'', 0),
      (''Product Manager'', 0), (''DevOps Engineer'', 0)]"
proof -
  let ?kws = "[''aws'', ''azure'', ''ci/cd'', ''terraform'', ''jenkins'', ''infrastructure'']"
  have h1: "(''DevOps Engineer'', ?kws) \<in> set keywords_dict \<and>
      0 < kw_count (py_lower ''I deploy with Terraform on AWS'') ?kws \<and>
      (\<forall>(r', kws') \<in> set keywords_dict. r' \<noteq> ''DevOps Engineer'' \<longrightarrow>
         kw_count (py_lower ''I deploy with Terraform on AWS'') kws' = 0)"
    by code_simp
  have h2: "''Hello there'' \<noteq> [] \<and>
      (\<forall>(r', kws') \<in> set keywords_dict. kw_count (py_lower ''Hello there'') kws' = 0)"
    by code_simp
  have c1: "role_counts (py_lower ''I deploy with Terraform on AWS'') =
     [(''Software Engineer'', 0), (''Data Analyst'', 0), (''Data Scientist'', 0),
      (''Product Manager'', 0), (''DevOps Engineer'', 2)]"
    by code_simp
  have c2: "role_counts (py_lower ''Hello there'') =
     [(''Software Engineer'', 0), (''Data Analyst'', 0), (''Data Scientist'', 0),
      (''Product Manager'', 0), (''DevOps Engineer'', 0)]"
    by code_simp
  from role_of_only_matching_list [of "''DevOps Engineer''" ?kws "''I deploy with Terraform on AWS''"] h1
  have r1: "\<exists>p. extract_profile_from_resume (Some ''I deploy with Terraform on AWS'') = Inr (Some p) \<and>
        role p = Some ''DevOps Engineer''"
    by blast
  from role_of_only_matching_list [of _ _ "''Hello there''"] h2
  have r2: "\<exists>p. extract_profile_from_resume (Some ''Hello there'') = Inr (Some p) \<and>
        role p = Some ''Data Analyst''"
    by blast
  show ?thesis using r1 c1 r2 c2 by (intro conjI)
qed

text \<open>
  The empty text contains no keyword of any list, and the extractor returns the
  no-profile value for it, not a profile with the role Data Analyst.
\<close>

theorem empty_resume_has_no_role:
  "kw_count (py_lower []) (concat (map snd keywords_dict)) = 0 \<and>
   extract_profile_from_resume (Some []) = Inr None"
  by (simp add: extract_profile_from_resume_def kw_count_def py_lower_def keywords_dict_def)

text \<open>
  C5. For the text \<open>Experienced senior python developer with react and docker skills\<close>
  the Profile Extractor returns the role Software Engineer, 6 years of experience, the
  seniority Senior and the skills docker, python and react.
\<close>

theorem resume_example_profile:
  "extract_profile_from_resume
     (Some ''Experienced senior python developer with react and docker skills'') =
   Inr (Some
     \<lparr>role = Some ''Software Engineer'', experience_years = Some 6,
      skills = Some [''docker'', ''python'', ''react''], seniority = Some ''Senior'',
      raw_text_preview =
        Some ''Experienced senior python developer with react and docker skills'',
      name = None\<rparr>)"
  by code_simp

text \<open>
  C9. The roles are declared in the order Software Engineer, Data Analyst, Data
  Scientist, Product Manager, DevOps Engineer. When a role has a keyword count above
  zero, every role declared before it has a strictly smaller count and every role
  declared after it has a count that is not greater, the Profile Extractor returns that
  role: among the roles that tie for the highest count the first declared wins. The text
  \<open>pandas\<close> matches one keyword of Data Analyst and one of Data Scientist, and gets the
  role Data Analyst.
\<close>

theorem tie_goes_to_first_declared:
  "map fst keywords_dict =
     [''Software Engineer'', ''Data Analyst'', ''Data Scientist'', ''Product Manager'',
      ''DevOps Engineer''] \<and>
   (keywords_dict = pre @ (r, kws) # post \<and> 0 < kw_count (py_lower rt) kws \<and>
    (\<forall>(r', kws') \<in> set pre. kw_count (py_lower rt) kws' < kw_count (py_lower rt) kws) \<and>
    (\<forall>(r', kws') \<in> set post. kw_count (py_lower rt) kws' \<le> kw_count (py_lower rt) kws) \<longrightarrow>
      (\<exists>p. extract_profile_from_resume (Some rt) = Inr (Some p) \<and> role p = Some r)) \<and>
   role_counts (py_lower ''pandas'') =
     [(''Software Engineer'', 0), (''Data Analyst'', 1), (''Data Scientist'', 1),
      (''Product Manager'', 0), (''DevOps Engineer'', 0)] \<and>
   extract_profile_from_resume (Some ''pandas'') =
     Inr (Some
       \<lparr>role = Some ''Data Analyst'', experience_years = Some 1, skills = Some [''pandas''],
        seniority = Some ''Junior'', raw_text_preview = Some ''pandas'', name = None\<rparr>)"
proof (intro conjI impI)
  show "role_counts (py_lower ''pandas'') =
     [(''Software Engineer'', 0), (''Data Analyst'', 1), (''Data Scientist'', 1),
      (''Product Manager'', 0), (''DevOps Engineer'', 0)]"
    by code_simp
next
  show "extract_profile_from_resume (Some ''pandas'') =
     Inr (Some
       \<lparr>role = Some ''Data Analyst'', experience_years = Some 1, skills = Some [''pandas''],
        seniority = Some ''Junior'', raw_text_preview = Some ''pandas'', name = None\<rparr>)"
    by code_simp
next
  show "map fst keywords_dict =
     [''Software Engineer'', ''Data Analyst'', ''Data Scientist'', ''Product Manager'',
      ''DevOps Engineer'']"
    by (simp add: keywords_dict_def)
next
  assume "keywords_dict = pre @ (r, kws) # post \<and> 0 < kw_count (py_lower rt) kws \<and>
    (\<forall>(r', kws') \<in> set pre. kw_count (py_lower rt) kws' < kw_count (py_lower rt) kws) \<and>
    (\<forall>(r', kws') \<in> set post. kw_count (py_lower rt) kws' \<le> kw_count (py_lower rt) kws)"
  then show "\<exists>p. extract_profile_from_resume (Some rt) = Inr (Some p) \<and> role p = Some r"
    using extract_first_max by blast
qed

theorem tie_goes_to_first_declared_witness:
  "(\<exists>p. extract_profile_from_resume (Some ''pandas'') = Inr (Some p) \<and>
        role p = Some ''Data Analyst'') \<and>
   role_counts (py_lower ''pandas'') =
     [(''Software Engineer'', 0), (''Data Analyst'', 1), (''Data Scientist'', 1),
      (''Product Manager'', 0), (''DevOps Engineer'', 0)]"
proof -
  let ?pre = "[(''Software Engineer'',
         [''python'', ''java'', ''react'', ''javascript'', ''backend'', ''frontend'', ''api'',
          ''docker'', ''kubernetes''])]"
  let ?kws = "[''excel'', ''tableau'', ''power bi'', ''sql'', ''pandas'', ''visualization'',
          ''dashboard'', ''reporting'', ''rfm'', ''eda'']"
  let ?post = "[(''Data Scientist'',
         [''machine learning'', ''deep learning'', ''tensorflow'', ''pytorch'',
          ''scikit-learn'', ''ml'', ''ai'', ''pandas'', ''numpy'']),
      (''Product Manager'',
         [''product management'', ''roadmap'', ''stakeholder'', ''user research'', ''kpi'',
          ''metrics'']),
      (''DevOps Engineer'',
         [''aws'', ''azure'', ''ci/cd'', ''terraform'', ''jenkins'', ''infrastructure''])]"
  have h: "keywords_dict = ?pre @ (''Data Analyst'', ?kws) # ?post \<and>
      0 < kw_count (py_lower ''pandas'') ?kws \<and>
      (\<forall>(r', kws') \<in> set ?pre. kw_count (py_lower ''pandas'') kws' < kw_count (py_lower ''pandas'') ?kws) \<and>
      (\<forall>(r', kws') \<in> set ?post. kw_count (py_lower ''pandas'') kws' \<le> kw_count (py_lower ''pandas'') ?kws)"
    by code_simp
  have c: "role_counts (py_lower ''pandas'') =
     [(''Software Engineer'', 0), (''Data Analyst'', 1), (''Data Scientist'', 1),
      (''Product Manager'', 0), (''DevOps Engineer'', 0)]"
    by code_simp
  from tie_goes_to_first_declared [of ?pre "''Data Analyst''" ?kws ?post "''pandas''"] h
  have "\<exists>p. extract_profile_from_resume (Some ''pandas'') = Inr (Some p) \<and>
        role p = Some ''Data Analyst''"
    by blast
  then show ?thesis using c by (intro conjI)
qed

text \<open>
  C10. The Profile Extractor returns the no-profile value exactly for an absent and for
  an empty resume text. A text that is not empty and consists of whitespace only gets a
  full profile: role Data Analyst, 1 year of experience, seniority Junior and no skill.
  The Solution Scorer treats the same text as empty and returns its draw from [4.0, 6.5].
\<close>

theorem blank_resume_is_profiled:
  "(extract_profile_from_resume t = Inr None \<longleftrightarrow> t = None \<or> t = Some []) \<and>
   (rt \<noteq> [] \<and> (\<forall>c \<in> set rt. py_isspace c) \<longrightarrow>
      (\<exists>p. extract_profile_from_resume (Some rt) = Inr (Some p) \<and>
           role p = Some ''Data Analyst'' \<and> experience_years p = Some 1 \<and>
           seniority p = Some ''Junior'' \<and> skills p = Some []) \<and>
      simulate_scoring (Some rt) r = uniform 4.0 6.5 r)"
proof (intro conjI impI)
  show "extract_profile_from_resume t = Inr None \<longleftrightarrow> t = None \<or> t = Some []"
  proof (cases t)
    case None
    then show ?thesis by (simp add: extract_profile_from_resume_def)
  next
    case (Some s)
    show ?thesis
    proof (cases "s = []")
      case True
      then show ?thesis by (simp add: Some extract_profile_from_resume_def)
    next
      case False
      obtain best n where "py_max_by_value (role_counts (py_lower s)) = Inr (best, n)"
        using role_counts_max [of "py_lower s"] by (metis surj_pair)
      from extract_nonempty [OF False this] show ?thesis
        unfolding Some Let_def using False by simp
    qed
  qed
next
  assume a: "rt \<noteq> [] \<and> (\<forall>c \<in> set rt. py_isspace c)"
  then show "\<exists>p. extract_profile_from_resume (Some rt) = Inr (Some p) \<and>
           role p = Some ''Data Analyst'' \<and> experience_years p = Some 1 \<and>
           seniority p = Some ''Junior'' \<and> skills p = Some []"
    using blank_profile by blast
  show "simulate_scoring (Some rt) r = uniform 4.0 6.5 r"
    using a simulate_scoring_blank by blast
qed

theorem blank_resume_is_profiled_witness:
  "list_all py_isspace [CHR '' '', CHR 0x09, CHR 0x0A] \<and>
   extract_profile_from_resume (Some [CHR '' '', CHR 0x09, CHR 0x0A]) =
     Inr (Some
       \<lparr>role = Some ''Data Analyst'', experience_years = Some 1, skills = Some [],
        seniority = Some ''Junior'', raw_text_preview = Some [CHR '' '', CHR 0x09, CHR '' ''],
        name = None\<rparr>) \<and>
   simulate_scoring (Some [CHR '' '', CHR 0x09, CHR 0x0A]) (1 / 2) = 5.25 \<and>
   extract_profile_from_resume (Some []) = Inr None \<and>
   extract_profile_from_resume None = Inr None"
proof -
  let ?s = "[CHR '' '', CHR 0x09, CHR 0x0A]"
  have l: "list_all py_isspace ?s" by code_simp
  have h: "?s \<noteq> [] \<and> (\<forall>c \<in> set ?s. py_isspace c)" by code_simp
  have e: "extract_profile_from_resume (Some ?s) =
     Inr (Some
       \<lparr>role = Some ''Data Analyst'', experience_years = Some 1, skills = Some [],
        seniority = Some ''Junior'', raw_text_preview = Some [CHR '' '', CHR 0x09, CHR '' ''],
        name = None\<rparr>)"
    by code_simp
  have "simulate_scoring (Some ?s) (1 / 2) = uniform 4.0 6.5 (1 / 2)"
    using blank_resume_is_profiled [of None ?s "1 / 2"] h by blast
  then have v: "simulate_scoring (Some ?s) (1 / 2) = 5.25" by (simp add: blank_draw_half)
  have n: "extract_profile_from_resume (Some []) = Inr None"
    "extract_profile_from_resume None = Inr None"
    using blank_resume_is_profiled [of "Some []" ?s 0] blank_resume_is_profiled [of None ?s 0]
    by simp_all
  show ?thesis using l e v n by (intro conjI)
qed

section \<open>Properties of the Nugget Generator\<close>

lemma py_in_append_right: "py_in kw b \<Longrightarrow> py_in kw (a @ b)"
  by (auto simp: py_in_iff_sublist sublist_def) (metis append.assoc)

lemma py_in_append_left: "py_in kw a \<Longrightarrow> py_in kw (a @ b)"
  by (auto simp: py_in_iff_sublist sublist_def) (metis append.assoc)

lemma py_in_self: "py_in kw kw"
  by (simp add: py_in_iff_sublist)

lemma py_in_join: "x \<in> set xs \<Longrightarrow> py_in x (py_join sep xs)"
proof (induction sep xs rule: py_join.induct)
  case (1 sep)
  then show ?case by simp
next
  case (2 sep x')
  then show ?case by (simp add: py_in_self)
next
  case (3 sep x' y ys)
  show ?case
  proof (cases "x = x'")
    case True
    then show ?thesis using py_in_append_left [OF py_in_self] by simp
  next
    case False
    then have "py_in x (py_join sep (y # ys))" using 3 by simp
    then show ?thesis using py_in_append_right [of x _ "x' @ sep"] by simp
  qed
qed

lemma headline_eq:
  assumes "\<not> empty_dict p"
  shows "generate_personalized_nuggets (Some p) topic ''headline'' =
     Some (get_default (role p) ''Professional'' @ '' '' @ bullet @ '' '' @
           get_default (seniority p) ''Junior'' @ '' '' @ bullet @ '' '' @
           (if take 5 (get_default (skills p) []) \<noteq> []
            then py_join '', '' (take 5 (get_default (skills p) []))
            else ''Skills not listed''))"
  using assms by (simp add: generate_personalized_nuggets_def Let_def)

lemma extracted_skills_sorted:
  assumes "extract_profile_from_resume t = Inr (Some p)"
  shows "\<exists>ss. skills p = Some ss \<and> sorted ss \<and> distinct ss"
proof (cases t)
  case None
  with assms show ?thesis by (simp add: extract_profile_from_resume_def)
next
  case (Some rt)
  show ?thesis
  proof (cases "rt = []")
    case True
    with assms Some show ?thesis by (simp add: extract_profile_from_resume_def)
  next
    case False
    obtain best n where "py_max_by_value (role_counts (py_lower rt)) = Inr (best, n)"
      using role_counts_max [of "py_lower rt"] by (metis surj_pair)
    from extract_nonempty [OF False this] assms Some
    have "skills p = Some (sorted_list_of_set
            {kw \<in> \<Union> (set ` snd ` set keywords_dict). py_in kw (py_lower rt)})"
      unfolding Let_def by auto
    then show ?thesis by simp
  qed
qed

text \<open>
  C7. For every profile that is not the empty dict: when its skills list is not empty,
  the headline ends with the first five entries of that list (all of them when there are
  fewer), joined by a comma and a space, so it lists at most five skills, each of which
  occurs in the headline; when the skills list is empty or absent, the headline ends with
  \<open>Skills not listed\<close>. The skills list of a profile that the Profile Extractor returns
  is sorted and has no duplicates.
\<close>

theorem headline_lists_first_five_skills:
  assumes "\<not> empty_dict p"
  defines "ss \<equiv> get_default (skills p) []"
  defines "h \<equiv> get_default (role p) ''Professional'' @ '' '' @ bullet @ '' '' @
                 get_default (seniority p) ''Junior'' @ '' '' @ bullet @ '' ''"
  shows "(ss \<noteq> [] \<longrightarrow>
            generate_personalized_nuggets (Some p) topic ''headline'' =
              Some (h @ py_join '', '' (take 5 ss)) \<and>
            length (take 5 ss) = min 5 (length ss) \<and>
            (\<forall>i < min 5 (length ss). take 5 ss ! i = ss ! i) \<and>
            (\<forall>i < min 5 (length ss). py_in (ss ! i) (h @ py_join '', '' (take 5 ss)))) \<and>
         (ss = [] \<longrightarrow>
            generate_personalized_nuggets (Some p) topic ''headline'' =
              Some (h @ ''Skills not listed'')) \<and>
         (extract_profile_from_resume t = Inr (Some p) \<longrightarrow> sorted ss \<and> distinct ss)"
proof (intro conjI impI allI)
  assume ne: "ss \<noteq> []"
  then have "take 5 ss \<noteq> []" by (cases ss) auto
  then show "generate_personalized_nuggets (Some p) topic ''headline'' =
              Some (h @ py_join '', '' (take 5 ss))"
    unfolding headline_eq [OF assms(1)] ss_def h_def by simp
next
  show "length (take 5 ss) = min 5 (length ss)" by (simp add: min.commute)
next
  fix i assume "i < min 5 (length ss)"
  then show "take 5 ss ! i = ss ! i" by simp
next
  fix i assume i: "i < min 5 (length ss)"
  then have "ss ! i \<in> set (take 5 ss)"
    by (metis length_take min.commute nth_mem nth_take min_less_iff_conj)
  then show "py_in (ss ! i) (h @ py_join '', '' (take 5 ss))"
    by (intro py_in_append_right py_in_join)
next
  assume "ss = []"
  then show "generate_personalized_nuggets (Some p) topic ''headline'' =
              Some (h @ ''Skills not listed'')"
    unfolding headline_eq [OF assms(1)] ss_def h_def by simp
next
  assume e: "extract_profile_from_resume t = Inr (Some p)"
  from extracted_skills_sorted [OF e] show "sorted ss" "distinct ss"
    by (auto simp: ss_def get_default_def)
qed

theorem headline_lists_first_five_skills_witness:
  "extract_profile_from_resume (Some ''python java react sql excel pandas tableau'') =
     Inr (Some
       \<lparr>role = Some ''Data Analyst'', experience_years = Some 1,
        skills = Some [''excel'', ''java'', ''pandas'', ''python'', ''react'', ''sql'', ''tableau''],
        seniority = Some ''Junior'',
        raw_text_preview = Some ''python java react sql excel pandas tableau'',
        name = None\<rparr>) \<and>
   generate_personalized_nuggets
     (Some \<lparr>role = Some ''Data Analyst'', experience_years = Some 1,
        skills = Some [''excel'', ''java'', ''pandas'', ''python'', ''react'', ''sql'', ''tableau''],
        seniority = Some ''Junior'',
        raw_text_preview = Some ''python java react sql excel pandas tableau'',
        name = None\<rparr>) ''AI & Machine Learning'' ''headline'' =
     Some (''Data Analyst '' @ bullet @ '' Junior '' @ bullet @
           '' excel, java, pandas, python, react'') \<and>
   generate_personalized_nuggets
     (Some \<lparr>role = Some ''Data Analyst'', experience_years = Some 1, skills = Some [],
        seniority = Some ''Junior'', raw_text_preview = Some '' '', name = None\<rparr>)
     ''AI & Machine Learning'' ''headline'' =
     Some (''Data Analyst '' @ bullet @ '' Junior '' @ bullet @ '' Skills not listed'')"
proof -
  let ?p = "\<lparr>role = Some ''Data Analyst'', experience_years = Some 1,
        skills = Some [''excel'', ''java'', ''pandas'', ''python'', ''react'', ''sql'', ''tableau''],
        seniority = Some ''Junior'',
        raw_text_preview = Some ''python java react sql excel pandas tableau'',
        name = None\<rparr>"
  let ?q = "\<lparr>role = Some ''Data Analyst'', experience_years = Some 1, skills = Some [],
        seniority = Some ''Junior'', raw_text_preview = Some '' '', name = None\<rparr>"
  have e: "extract_profile_from_resume (Some ''python java react sql excel pandas tableau'') =
     Inr (Some ?p)"
    by code_simp
  have np: "\<not> empty_dict ?p" and nq: "\<not> empty_dict ?q"
    by (simp_all add: empty_dict_def)
  have hp: "generate_personalized_nuggets (Some ?p) ''AI & Machine Learning'' ''headline'' =
     Some (''Data Analyst '' @ bullet @ '' Junior '' @ bullet @
           '' excel, java, pandas, python, react'')"
    using headline_lists_first_five_skills [OF np, of "''AI & Machine Learning''" None]
    by (simp add: get_default_def)
  have hq: "generate_personalized_nuggets (Some ?q) ''AI & Machine Learning'' ''headline'' =
     Some (''Data Analyst '' @ bullet @ '' Junior '' @ bullet @ '' Skills not listed'')"
    using headline_lists_first_five_skills [OF nq, of "''AI & Machine Learning''" None]
    by (simp add: get_default_def)
  show ?thesis using e hp hq by (intro conjI)
qed

section \<open>Properties of the Email Generator\<close>

lemma email_subjects:
  "subject (generate_personalized_email p topic ''2 Hours Post-Exit'') =
     ''That moment from today'' @ [CHR 0x27] @ ''s '' @ topic @ '' '' @ em_dash @
     '' don'' @ [CHR 0x27] @ ''t let it fade''"
  "subject (generate_personalized_email p topic ''24 Hours Later'') =
     ''Your peers are already advancing '' @ em_dash @ '' a reminder from Scaler AI''"
  "subject (generate_personalized_email p topic ''Final Reminder (7 days)'') =
     ''A note from your future self '' @ em_dash @ '' keep building''"
  by (simp_all add: generate_personalized_email_def Let_def)

lemma email_fallback:
  assumes "email_type \<noteq> ''2 Hours Post-Exit''" "email_type \<noteq> ''24 Hours Later''"
  shows "generate_personalized_email p topic email_type =
         generate_personalized_email p topic ''Final Reminder (7 days)''"
  using assms by (simp add: generate_personalized_email_def Let_def)

lemma email_subject_initial:
  "hd (subject (generate_personalized_email p topic email_type)) =
     (if email_type = ''2 Hours Post-Exit'' then CHR ''T''
      else if email_type = ''24 Hours Later'' then CHR ''Y'' else CHR ''A'')"
  by (simp add: generate_personalized_email_def Let_def)

text \<open>
  C8. For every profile, topic and selector, the Email Generator returns the template of
  \<open>2 Hours Post-Exit\<close> exactly when the selector is that string, the template of
  \<open>24 Hours Later\<close> exactly when the selector is that string, and the final-reminder
  template for every other selector, among them \<open>Final Reminder (7 days)\<close>, the empty
  string and selectors that differ in case or spacing. The function has no failing
  branch. The three templates are told apart by their subjects.
\<close>

theorem email_template_selection:
  "(generate_personalized_email p topic email_type =
      generate_personalized_email p topic ''2 Hours Post-Exit'' \<longleftrightarrow>
        email_type = ''2 Hours Post-Exit'') \<and>
   (generate_personalized_email p topic email_type =
      generate_personalized_email p topic ''24 Hours Later'' \<longleftrightarrow>
        email_type = ''24 Hours Later'') \<and>
   (email_type \<noteq> ''2 Hours Post-Exit'' \<and> email_type \<noteq> ''24 Hours Later'' \<longrightarrow>
      generate_personalized_email p topic email_type =
        generate_personalized_email p topic ''Final Reminder (7 days)'') \<and>
   generate_personalized_email p topic [] =
     generate_personalized_email p topic ''Final Reminder (7 days)'' \<and>
   generate_personalized_email p topic ''2 hours post-exit'' =
     generate_personalized_email p topic ''Final Reminder (7 days)'' \<and>
   generate_personalized_email p topic ''24 Hours  Later'' =
     generate_personalized_email p topic ''Final Reminder (7 days)'' \<and>
   subject (generate_personalized_email p topic ''2 Hours Post-Exit'') =
     ''That moment from today'' @ [CHR 0x27] @ ''s '' @ topic @ '' '' @ em_dash @
     '' don'' @ [CHR 0x27] @ ''t let it fade'' \<and>
   subject (generate_personalized_email p topic ''24 Hours Later'') =
     ''Your peers are already advancing '' @ em_dash @ '' a reminder from Scaler AI'' \<and>
   subject (generate_personalized_email p topic ''Final Reminder (7 days)'') =
     ''A note from your future self '' @ em_dash @ '' keep building''"
proof -
  have a: "generate_personalized_email p topic email_type =
      generate_personalized_email p topic ''2 Hours Post-Exit'' \<longleftrightarrow>
        email_type = ''2 Hours Post-Exit''"
    using email_subject_initial [of p topic email_type]
      email_subject_initial [of p topic "''2 Hours Post-Exit''"]
    by (auto split: if_splits)
  have b: "generate_personalized_email p topic email_type =
      generate_personalized_email p topic ''24 Hours Later'' \<longleftrightarrow>
        email_type = ''24 Hours Later''"
    using email_subject_initial [of p topic email_type]
      email_subject_initial [of p topic "''24 Hours Later''"]
    by (auto split: if_splits)
  have c: "email_type \<noteq> ''2 Hours Post-Exit'' \<and> email_type \<noteq> ''24 Hours Later'' \<longrightarrow>
      generate_personalized_email p topic email_type =
        generate_personalized_email p topic ''Final Reminder (7 days)''"
    using email_fallback by blast
  have d: "generate_personalized_email p topic [] =
     generate_personalized_email p topic ''Final Reminder (7 days)''"
    "generate_personalized_email p topic ''2 hours post-exit'' =
     generate_personalized_email p topic ''Final Reminder (7 days)''"
    "generate_personalized_email p topic ''24 Hours  Later'' =
     generate_personalized_email p topic ''Final Reminder (7 days)''"
    by (rule email_fallback; simp)+
  show ?thesis using a b c d email_subjects [of p topic] by (intro conjI)
qed

theorem email_template_selection_witness:
  "generate_personalized_email
     \<lparr>role = Some ''Data Analyst'', experience_years = Some 1, skills = Some [''sql''],
      seniority = Some ''Junior'', raw_text_preview = Some ''sql'', name = Some ''Candidate''\<rparr>
     ''AI & Machine Learning'' ''24 hours later'' =
   generate_personalized_email
     \<lparr>role = Some ''Data Analyst'', experience_years = Some 1, skills = Some [''sql''],
      seniority = Some ''Junior'', raw_text_preview = Some ''sql'', name = Some ''Candidate''\<rparr>
     ''AI & Machine Learning'' ''Final Reminder (7 days)'' \<and>
   subject (generate_personalized_email
     \<lparr>role = Some ''Data Analyst'', experience_years = Some 1, skills = Some [''sql''],
      seniority = Some ''Junior'', raw_text_preview = Some ''sql'', name = Some ''Candidate''\<rparr>
     ''AI & Machine Learning'' ''24 hours later'') =
   ''A note from your future self '' @ em_dash @ '' keep building''"
proof -
  let ?p = "\<lparr>role = Some ''Data Analyst'', experience_years = Some 1, skills = Some [''sql''],
      seniority = Some ''Junior'', raw_text_preview = Some ''sql'', name = Some ''Candidate''\<rparr>"
  have n: "''24 hours later'' \<noteq> ''2 Hours Post-Exit'' \<and> ''24 hours later'' \<noteq> ''24 Hours Later''"
    by simp
  note t = email_template_selection [of ?p "''AI & Machine Learning''" "''24 hours later''"]
  from t n have eq: "generate_personalized_email ?p ''AI & Machine Learning'' ''24 hours later'' =
      generate_personalized_email ?p ''AI & Machine Learning'' ''Final Reminder (7 days)''"
    by blast
  from t have "subject (generate_personalized_email ?p ''AI & Machine Learning''
        ''Final Reminder (7 days)'') =
      ''A note from your future self '' @ em_dash @ '' keep building''"
    by blast
  with eq show ?thesis by simp
qed

end
